theory Spec2Isabelle
  imports Main "HOL-Library.Multiset"
begin

section \<open>JavaScript values\<close>

text \<open>
  A JavaScript string is a sequence of UTF-16 code units; the regular expressions of
  \<^verbatim>\<open>script.js\<close> have no \<^verbatim>\<open>u\<close> flag, so they read a string code unit by code unit.
  A code unit is modelled as a natural number (below 65536 in JavaScript; no definition
  here depends on that bound). \<open>js\<close> turns an ASCII literal into its code units.
\<close>

type_synonym jsstring = "nat list"

definition js :: "string \<Rightarrow> jsstring" where
  "js s = map of_char s"

text \<open>
  The fields that the handler destructures from \<^verbatim>\<open>req.body\<close>. The model covers the
  payloads whose fields are strings, \<^verbatim>\<open>null\<close>, or absent (\<^verbatim>\<open>undefined\<close>); numbers,
  booleans, arrays and objects as field values are outside of it.
\<close>

datatype jsval = Undefined | Null | Str jsstring

text \<open>\<^verbatim>\<open>!v\<close> is false exactly for the truthy values: of the values above, the non-empty strings.\<close>

definition truthy :: "jsval \<Rightarrow> bool" where
  "truthy v = (case v of Str s \<Rightarrow> s \<noteq> [] | _ \<Rightarrow> False)"

text \<open>\<^verbatim>\<open>String(v)\<close>, the coercion that \<^verbatim>\<open>RegExp.prototype.test\<close> applies to its argument.\<close>

definition to_string :: "jsval \<Rightarrow> jsstring" where
  "to_string v = (case v of Undefined \<Rightarrow> js ''undefined'' | Null \<Rightarrow> js ''null'' | Str s \<Rightarrow> s)"

text \<open>\<^verbatim>\<open>a || b\<close>.\<close>

definition js_or :: "jsval \<Rightarrow> jsval \<Rightarrow> jsval" where
  "js_or a b = (if truthy a then a else b)"

section \<open>Regular expressions\<close>

text \<open>
  The class \<^verbatim>\<open>\s\<close> of ECMAScript: TAB, LF, VT, FF, CR, SPACE, NBSP, U+1680,
  U+2000 to U+200A, U+2028, U+2029, U+202F, U+205F, U+3000 and U+FEFF.
  The class \<^verbatim>\<open>\d\<close> is the ten ASCII digits.
\<close>

definition is_space :: "nat \<Rightarrow> bool" where
  "is_space c \<longleftrightarrow>
     c = 9 \<or> c = 10 \<or> c = 11 \<or> c = 12 \<or> c = 13 \<or> c = 32 \<or> c = 160 \<or> c = 5760 \<or>
     (8192 \<le> c \<and> c \<le> 8202) \<or> c = 8232 \<or> c = 8233 \<or> c = 8239 \<or> c = 8287 \<or>
     c = 12288 \<or> c = 65279"

definition is_digit :: "nat \<Rightarrow> bool" where
  "is_digit c \<longleftrightarrow> 48 \<le> c \<and> c \<le> 57"

text \<open>
  The constructs that the three patterns of the handler use: a character class (a single
  character is the class of that character), concatenation, \<^verbatim>\<open>r?\<close> and \<^verbatim>\<open>r+\<close>;
  \<^verbatim>\<open>r{n}\<close> is \<open>n\<close> copies of \<open>r\<close> in sequence.
\<close>

datatype regex = Eps | Class "nat \<Rightarrow> bool" | Seq regex regex | Opt regex | Plus regex

definition chr :: "char \<Rightarrow> regex" where
  "chr c = Class (\<lambda>x. x = of_char c)"

definition seqs :: "regex list \<Rightarrow> regex" where
  "seqs rs = foldr Seq rs Eps"

definition rep :: "nat \<Rightarrow> regex \<Rightarrow> regex" where
  "rep n r = seqs (replicate n r)"

text \<open>
  A backtracking matcher: \<open>run r s\<close> lists, in the order a greedy engine tries them, the
  rests of \<open>s\<close> that remain after \<open>r\<close> has matched a prefix of \<open>s\<close>. An iteration of
  \<^verbatim>\<open>r+\<close> that consumed nothing is not repeated, as in ECMAScript.
\<close>

fun run :: "regex \<Rightarrow> jsstring \<Rightarrow> jsstring list" where
  "run Eps s = [s]"
| "run (Class P) s = (case s of [] \<Rightarrow> [] | c # cs \<Rightarrow> if P c then [cs] else [])"
| "run (Seq a b) s = concat (map (run b) (run a s))"
| "run (Opt a) s = run a s @ [s]"
| "run (Plus a) s =
     concat (map (\<lambda>t. (if length t < length s then run (Plus a) t else []) @ [t]) (run a s))"

text \<open>\<^verbatim>\<open>/^r$/.test(s)\<close>: without the \<^verbatim>\<open>m\<close> flag the anchors are the two ends of the input.\<close>

definition test :: "regex \<Rightarrow> jsstring \<Rightarrow> bool" where
  "test r s \<longleftrightarrow> [] \<in> set (run r s)"

text \<open>The words a pattern denotes, as the reference for the matcher.\<close>

fun lang :: "regex \<Rightarrow> jsstring set" where
  "lang Eps = {[]}"
| "lang (Class P) = {[c] | c. P c}"
| "lang (Seq a b) = {u @ v | u v. u \<in> lang a \<and> v \<in> lang b}"
| "lang (Opt a) = insert [] (lang a)"
| "lang (Plus a) = {concat us | us. us \<noteq> [] \<and> set us \<subseteq> lang a}"

text \<open>Line 165: \<^verbatim>\<open>/^[^\s@]+@[^\s@]+\.[^\s@]+$/\<close>.\<close>

definition not_space_at :: "nat \<Rightarrow> bool" where
  "not_space_at c \<longleftrightarrow> \<not> is_space c \<and> c \<noteq> of_char CHR ''@''"

definition emailRegex :: regex where
  "emailRegex = seqs [Plus (Class not_space_at), chr CHR ''@'', Plus (Class not_space_at),
     chr CHR ''.'', Plus (Class not_space_at)]"

text \<open>Line 174: \<^verbatim>\<open>/^\+?880?\s?1[3-9]\d{8}$/\<close>.\<close>

definition digit_3_9 :: "nat \<Rightarrow> bool" where
  "digit_3_9 c \<longleftrightarrow> of_char CHR ''3'' \<le> c \<and> c \<le> of_char CHR ''9''"

definition phoneRegex :: regex where
  "phoneRegex = seqs [Opt (chr CHR ''+''), chr CHR ''8'', chr CHR ''8'', Opt (chr CHR ''0''),
     Opt (Class is_space), chr CHR ''1'', Class digit_3_9, rep 8 (Class is_digit)]"

text \<open>Line 183: \<^verbatim>\<open>/^\d{17}$/\<close>.\<close>

definition nidRegex :: regex where
  "nidRegex = rep 17 (Class is_digit)"

text \<open>Line 175: \<^verbatim>\<open>phone.replace(/\s/g, '')\<close>.\<close>

definition replace_ws :: "jsstring \<Rightarrow> jsstring" where
  "replace_ws s = filter (\<lambda>c. \<not> is_space c) s"

section \<open>The store\<close>

text \<open>
  The tables that the handlers read and write, each a list of rows in insertion order.
  A column holds an SQL value: \<open>None\<close> is \<^verbatim>\<open>NULL\<close>, a text value is the string that
  a read of the column yields. Stored text is well-formed, and two texts are equal (the
  \<^verbatim>\<open>BINARY\<close> collation) when these strings are. \<^verbatim>\<open>CURRENT_TIMESTAMP\<close> is the fixed-width text
  \<^verbatim>\<open>YYYY-MM-DD HH:MM:SS\<close>, whose order as text is the order in time, so that a time
  stamp is kept as its number of seconds. The tables \<^verbatim>\<open>blood_requests\<close> and
  \<^verbatim>\<open>nid_verification_logs\<close> are created at startup and used by no statement; they
  are left out, and so are the \<^verbatim>\<open>id\<close> columns of \<^verbatim>\<open>admins\<close> and
  \<^verbatim>\<open>blood_inventory\<close>, which no statement reads. A table that has not been created
  and an empty one are both the empty list, so that \<^verbatim>\<open>CREATE TABLE IF NOT EXISTS\<close>
  changes nothing. A unit count is an SQLite \<^verbatim>\<open>INTEGER\<close>, that is a value of
  \<open>int64\<close>; \<^verbatim>\<open>units + 1\<close> is modelled where the sum is again such a value (beyond
  it SQLite goes over to floating point, which is outside the model), and every statement
  about a count carries that range.
\<close>

definition int64 :: "int \<Rightarrow> bool" where
  "int64 n \<longleftrightarrow> - (2 ^ 63) \<le> n \<and> n < 2 ^ 63"

type_synonym sqltext = "jsstring option"

text \<open>Lines 27 to 45. The first record is the fourteen columns that line 195 lists.\<close>

record donor_values =
  firstName :: sqltext
  lastName :: sqltext
  email :: sqltext
  phone :: sqltext
  dob :: sqltext
  bloodType :: sqltext
  gender :: sqltext
  address :: sqltext
  city :: sqltext
  zipCode :: sqltext
  nidNumber :: sqltext
  nidVerified :: int
  nidData :: sqltext
  registeredBy :: sqltext

record donor = donor_values +
  id_col :: nat
  registrationDate :: nat
  status :: sqltext

text \<open>Lines 48 to 56.\<close>

record admin =
  username :: jsstring
  password :: jsstring
  email :: jsstring
  name :: sqltext
  role :: sqltext
  created_at :: nat

text \<open>Lines 59 to 64.\<close>

record inventory_row =
  bloodType :: jsstring
  units :: int
  lastUpdated :: nat

text \<open>
  \<open>donors_seq\<close> is the \<^verbatim>\<open>sqlite_sequence\<close> entry of \<^verbatim>\<open>donors\<close>: the largest id
  that \<^verbatim>\<open>AUTOINCREMENT\<close> has handed out.
\<close>

record db =
  donors :: "donor list"
  donors_seq :: nat
  admins :: "admin list"
  blood_inventory :: "inventory_row list"

definition empty_db :: db where
  "empty_db = \<lparr>donors = [], donors_seq = 0, admins = [], blood_inventory = []\<rparr>"

text \<open>
  A statement fails when it breaks a constraint of the schema, or when the store itself
  fails (input/output, a locked file); the second is decided outside the program and is
  an input of the primitives that the request handlers call with an error callback.
\<close>

datatype store_error = Store_Fault | Constraint_Failed

text \<open>
  How node-sqlite3 binds a parameter: a string as text, \<^verbatim>\<open>null\<close> as \<^verbatim>\<open>NULL\<close>; a
  parameter that is \<^verbatim>\<open>undefined\<close> is left unbound, which SQLite reads as \<^verbatim>\<open>NULL\<close>.
  The text is the UTF-8 encoding of the string, in which a surrogate code unit that is
  not part of a pair is replaced by U+FFFD; \<open>stored_text s\<close> is that text as a string
  reads it back. A string without such a code unit is stored as it is.
\<close>

definition is_high_surrogate :: "nat \<Rightarrow> bool" where
  "is_high_surrogate c \<longleftrightarrow> 55296 \<le> c \<and> c \<le> 56319"

definition is_low_surrogate :: "nat \<Rightarrow> bool" where
  "is_low_surrogate c \<longleftrightarrow> 56320 \<le> c \<and> c \<le> 57343"

definition replace_surrogate :: "nat \<Rightarrow> nat" where
  "replace_surrogate c = (if is_high_surrogate c \<or> is_low_surrogate c then 65533 else c)"

fun stored_text :: "jsstring \<Rightarrow> jsstring" where
  "stored_text [] = []"
| "stored_text [c] = [replace_surrogate c]"
| "stored_text (c # d # cs) =
     (if is_high_surrogate c \<and> is_low_surrogate d then c # d # stored_text cs
      else replace_surrogate c # stored_text (d # cs))"

fun well_formed_utf16 :: "jsstring \<Rightarrow> bool" where
  "well_formed_utf16 [] = True"
| "well_formed_utf16 [c] = (\<not> is_high_surrogate c \<and> \<not> is_low_surrogate c)"
| "well_formed_utf16 (c # d # cs) =
     (if is_high_surrogate c then is_low_surrogate d \<and> well_formed_utf16 cs
      else \<not> is_low_surrogate c \<and> well_formed_utf16 (d # cs))"

definition bind :: "jsval \<Rightarrow> sqltext" where
  "bind v = (case v of Str s \<Rightarrow> Some (stored_text s) | _ \<Rightarrow> None)"

text \<open>
  Line 204 with the statement of lines 193 to 197. The ten \<^verbatim>\<open>NOT NULL\<close> columns of
  lines 29 to 38 are checked; \<^verbatim>\<open>id\<close>, \<^verbatim>\<open>registrationDate\<close> and \<^verbatim>\<open>status\<close> take
  their defaults. The result is \<^verbatim>\<open>this.lastID\<close> and the new state.
\<close>

definition not_null_columns :: "donor_values \<Rightarrow> sqltext list" where
  "not_null_columns v =
     [donor_values.firstName v, lastName v, donor_values.email v, phone v, dob v,
      donor_values.bloodType v, gender v, address v, city v, zipCode v]"

definition next_id :: "db \<Rightarrow> nat" where
  "next_id s = Suc (fold max (map id_col (donors s)) (donors_seq s))"

definition new_donor :: "nat \<Rightarrow> nat \<Rightarrow> donor_values \<Rightarrow> donor" where
  "new_donor i now v =
     \<lparr>firstName = donor_values.firstName v, lastName = lastName v,
      email = donor_values.email v, phone = phone v, dob = dob v,
      bloodType = donor_values.bloodType v, gender = gender v, address = address v,
      city = city v, zipCode = zipCode v, nidNumber = nidNumber v,
      nidVerified = nidVerified v, nidData = nidData v, registeredBy = registeredBy v,
      id_col = i, registrationDate = now, status = Some (js ''Active'')\<rparr>"

definition insert_donor ::
  "bool \<Rightarrow> nat \<Rightarrow> donor_values \<Rightarrow> db \<Rightarrow> store_error + (nat \<times> db)" where
  "insert_donor fault now v s =
     (if fault then Inl Store_Fault
      else if list_ex (\<lambda>c. c = None) (not_null_columns v) then Inl Constraint_Failed
      else Inr (next_id s,
             s\<lparr>donors := donors s @ [new_donor (next_id s) now v], donors_seq := next_id s\<rparr>))"

text \<open>
  Lines 213 to 215: the \<^verbatim>\<open>UPDATE\<close> of every row whose blood type equals the parameter.
  \<open>units r + 1\<close> is what SQLite computes when the sum is a value of \<open>int64\<close>.
\<close>

definition bump :: "nat \<Rightarrow> sqltext \<Rightarrow> inventory_row \<Rightarrow> inventory_row" where
  "bump now t r =
     (if Some (inventory_row.bloodType r) = t
      then r\<lparr>units := units r + 1, lastUpdated := now\<rparr> else r)"

definition update_inventory :: "bool \<Rightarrow> nat \<Rightarrow> sqltext \<Rightarrow> db \<Rightarrow> store_error + db" where
  "update_inventory fault now t s =
     (if fault then Inl Store_Fault
      else Inr (s\<lparr>blood_inventory := map (bump now t) (blood_inventory s)\<rparr>))"

text \<open>
  Line 133: \<^verbatim>\<open>SELECT * FROM donors ORDER BY registrationDate DESC\<close>. SQL leaves the
  order of rows with equal keys open; here they stay in table order.
\<close>

definition select_donors :: "bool \<Rightarrow> db \<Rightarrow> store_error + donor list" where
  "select_donors fault s =
     (if fault then Inl Store_Fault
      else Inr (sort_key (\<lambda>d. - int (registrationDate d)) (donors s)))"

text \<open>Line 100: \<^verbatim>\<open>db.get\<close> yields the first row with the user name, or \<^verbatim>\<open>undefined\<close>.\<close>

definition select_admin :: "jsstring \<Rightarrow> db \<Rightarrow> admin option" where
  "select_admin u s = find (\<lambda>a. username a = u) (admins s)"

text \<open>
  Lines 102 to 105: the row has the four values given and the defaults of \<^verbatim>\<open>role\<close> and
  \<^verbatim>\<open>created_at\<close>; \<^verbatim>\<open>username\<close> is \<^verbatim>\<open>UNIQUE\<close> (line 50).
\<close>

definition admin_row ::
  "nat \<Rightarrow> jsstring \<Rightarrow> jsstring \<Rightarrow> jsstring \<Rightarrow> jsstring \<Rightarrow> admin" where
  "admin_row now u p e n =
     \<lparr>username = u, password = p, email = e, name = Some n,
      role = Some (js ''admin''), created_at = now\<rparr>"

definition insert_admin ::
  "nat \<Rightarrow> jsstring \<Rightarrow> jsstring \<Rightarrow> jsstring \<Rightarrow> jsstring \<Rightarrow> db \<Rightarrow> store_error + db" where
  "insert_admin now u p e n s =
     (if list_ex (\<lambda>a. username a = u) (admins s) then Inl Constraint_Failed
      else Inr (s\<lparr>admins := admins s @ [admin_row now u p e n]\<rparr>))"

text \<open>Line 113: \<^verbatim>\<open>INSERT OR IGNORE\<close>; \<^verbatim>\<open>bloodType\<close> is \<^verbatim>\<open>UNIQUE\<close> (line 61).\<close>

definition insert_or_ignore_inventory :: "nat \<Rightarrow> jsstring \<Rightarrow> db \<Rightarrow> db" where
  "insert_or_ignore_inventory now t s =
     (if list_ex (\<lambda>r. inventory_row.bloodType r = t) (blood_inventory s) then s
      else s\<lparr>blood_inventory := blood_inventory s @
             [\<lparr>bloodType = t, units = 0, lastUpdated = now\<rparr>]\<rparr>)"

section \<open>The literals of the handlers\<close>

definition defaultAdmin_name :: jsstring where \<comment> \<open>Line 97: the display name of the default admin\<close>
  "defaultAdmin_name =
     [2488, 2495, 2488, 2509, 2463, 2503, 2478, 32, 2437, 2509, 2479, 2494, 2465, 2478,
      2495, 2472]"

definition msg_load_failed :: jsstring where \<comment> \<open>Line 136: the message of the 500 response of the list handler\<close>
  "msg_load_failed =
     [2465, 2503, 2463, 2494, 32, 2482, 2507, 2465, 32, 2453, 2480, 2468, 2503, 32, 2488,
      2478, 2488, 2509, 2479, 2494, 32, 2489, 2527, 2503, 2459, 2503]"

definition msg_required :: jsstring where \<comment> \<open>Line 160: the missing-fields message\<close>
  "msg_required =
     [2470, 2527, 2494, 32, 2453, 2480, 2503, 32, 2488, 2453, 2482, 32, 2438, 2476, 2486,
      2509, 2479, 2453, 32, 2468, 2469, 2509, 2479, 32, 2474, 2509, 2480, 2470, 2494, 2472,
      32, 2453, 2480, 2497, 2472]"

definition msg_email :: jsstring where \<comment> \<open>Line 169: the email message\<close>
  "msg_email =
     [2488, 2464, 2495, 2453, 32, 2439, 2478, 2503, 2439, 2482, 32, 2464, 2495, 2453, 2494,
      2472, 2494, 32, 2470, 2495, 2472]"

definition msg_phone :: jsstring where \<comment> \<open>Line 178: the phone-format message\<close>
  "msg_phone =
     [2488, 2464, 2495, 2453, 32, 2478, 2507, 2476, 2494, 2439, 2482, 32, 2472, 2478, 2509,
      2476, 2480, 32, 2470, 2495, 2472, 32, 40, 2476, 2494, 2434, 2482, 2494, 2470, 2503,
      2486, 2495, 32, 2475, 2480, 2478, 2509, 2479, 2494, 2463, 41]"

definition msg_nid :: jsstring where \<comment> \<open>Line 186: the NID-format message\<close>
  "msg_nid =
     [2488, 2464, 2495, 2453, 32, 2535, 2541, 32, 2465, 2495, 2460, 2495, 2463, 2503, 2480,
      32, 78, 73, 68, 32, 2472, 2478, 2509, 2476, 2480, 32, 2470, 2495, 2472]"

definition msg_store :: jsstring where \<comment> \<open>Line 209: the store-error message of the registration handler\<close>
  "msg_store =
     [2472, 2495, 2476, 2472, 2509, 2471, 2472, 32, 2474, 2509, 2480, 2453, 2509, 2480,
      2495, 2527, 2494, 2527, 32, 2488, 2478, 2488, 2509, 2479, 2494, 32, 2489, 2527, 2503,
      2459, 2503]"

definition msg_registered :: jsstring where \<comment> \<open>Line 225: the message of the success response\<close>
  "msg_registered =
     [2480, 2453, 2509, 2468, 2470, 2494, 2468, 2494, 32, 2488, 2475, 2482, 2477, 2494,
      2476, 2503, 32, 2472, 2495, 2476, 2472, 2509, 2471, 2495, 2468, 32, 2489, 2527, 2503,
      2459, 2503]"

definition nid_pending :: jsstring where \<comment> \<open>Line 227: the NID status when a national ID was given\<close>
  "nid_pending =
     [2474, 2503, 2472, 2509, 2465, 2495, 2434]"

definition nid_none :: jsstring where \<comment> \<open>Line 227: the NID status when none was given\<close>
  "nid_none =
     [2472, 2503, 2439]"

section \<open>Startup\<close>

text \<open>
  Lines 92 to 114, on a store that executes each statement (the block passes no error
  callback). \<open>t_admin\<close> is the time of the insert of line 102 and \<open>t_inv ty\<close> the time of the
  insert of line 113 for the type \<open>ty\<close>. The insert of the admin runs in the callback of
  line 100, after the loop has queued its statements; the two write different tables.
\<close>

definition bloodTypes :: "jsstring list" where
  "bloodTypes = map js [''O+'', ''O-'', ''A+'', ''A-'', ''B+'', ''B-'', ''AB+'', ''AB-'']"

definition seed_admin :: "nat \<Rightarrow> db \<Rightarrow> db" where
  "seed_admin t_admin s =
     (case select_admin (js ''admin'') s of
        Some row \<Rightarrow> s
      | None \<Rightarrow>
          (case insert_admin t_admin (js ''admin'') (js ''admin123'')
                  (js ''admin@roktokona.org'') defaultAdmin_name s of
             Inl err \<Rightarrow> s
           | Inr s' \<Rightarrow> s'))"

definition startup :: "nat \<Rightarrow> (jsstring \<Rightarrow> nat) \<Rightarrow> db \<Rightarrow> db" where
  "startup t_admin t_inv s =
     foldl (\<lambda>s' ty. insert_or_ignore_inventory (t_inv ty) ty s') (seed_admin t_admin s) bloodTypes"

section \<open>Registration\<close>

text \<open>Lines 151 to 154: the fields read from the body of the request.\<close>

record payload =
  firstName :: jsval
  lastName :: jsval
  email :: jsval
  phone :: jsval
  dob :: jsval
  bloodType :: jsval
  gender :: jsval
  address :: jsval
  city :: jsval
  zipCode :: jsval
  nidNumber :: jsval
  registeredBy :: jsval

text \<open>What the store and the clock contribute to one run of the handler.\<close>

record reg_env =
  insert_fault :: bool
  insert_time :: nat
  update_fault :: bool
  update_time :: nat

text \<open>The body of a response: lines 158, 167, 176, 184 and 207, and line 223.\<close>

datatype reply = Failure jsstring | Registered jsstring nat jsstring

text \<open>Line 157.\<close>

definition required_missing :: "payload \<Rightarrow> bool" where
  "required_missing p \<longleftrightarrow>
     \<not> truthy (payload.firstName p) \<or> \<not> truthy (payload.lastName p) \<or>
     \<not> truthy (payload.email p) \<or> \<not> truthy (payload.phone p) \<or>
     \<not> truthy (payload.bloodType p) \<or> \<not> truthy (payload.gender p) \<or>
     \<not> truthy (payload.city p)"

text \<open>Line 166.\<close>

definition email_check :: "jsval \<Rightarrow> bool" where
  "email_check e = test emailRegex (to_string e)"

text \<open>
  Line 175. \<^verbatim>\<open>replace\<close> is the method of a string: on a number or another value that
  is not a string the handler throws. Of the values modelled, line 157 lets only a
  non-empty string reach this line.
\<close>

definition phone_check :: "jsval \<Rightarrow> bool" where
  "phone_check ph = test phoneRegex (replace_ws (to_string ph))"

text \<open>Line 183.\<close>

definition nid_rejected :: "jsval \<Rightarrow> bool" where
  "nid_rejected n \<longleftrightarrow> truthy n \<and> \<not> test nidRegex (to_string n)"

text \<open>Lines 190 to 202: the parameters of the insert.\<close>

definition donor_params :: "payload \<Rightarrow> donor_values" where
  "donor_params p =
     (let nidVerified = (if truthy (payload.nidNumber p) then 0 else 0);
          nidData = Null
      in \<lparr>donor_values.firstName = bind (payload.firstName p),
          donor_values.lastName = bind (payload.lastName p),
          donor_values.email = bind (payload.email p),
          donor_values.phone = bind (payload.phone p),
          donor_values.dob = bind (payload.dob p),
          donor_values.bloodType = bind (payload.bloodType p),
          donor_values.gender = bind (payload.gender p),
          donor_values.address = bind (payload.address p),
          donor_values.city = bind (payload.city p),
          donor_values.zipCode = bind (payload.zipCode p),
          donor_values.nidNumber = bind (payload.nidNumber p),
          donor_values.nidVerified = nidVerified,
          donor_values.nidData = bind nidData,
          donor_values.registeredBy =
            bind (js_or (payload.registeredBy p) (Str (js ''user'')))\<rparr>)"

text \<open>
  Lines 150 to 231. The result is the status and body of the response, and the store once
  the statements that the handler issued have run; the response of line 223 is sent
  before the update of line 213 has run, and an error of that update is only logged.
\<close>

definition register_donor :: "reg_env \<Rightarrow> payload \<Rightarrow> db \<Rightarrow> (nat \<times> reply) \<times> db" where
  "register_donor env p s =
     (if required_missing p then ((400, Failure msg_required), s)
      else if \<not> email_check (payload.email p) then ((400, Failure msg_email), s)
      else if \<not> phone_check (payload.phone p) then ((400, Failure msg_phone), s)
      else if nid_rejected (payload.nidNumber p) then ((400, Failure msg_nid), s)
      else
        (case insert_donor (insert_fault env) (insert_time env) (donor_params p) s of
           Inl err \<Rightarrow> ((500, Failure msg_store), s)
         | Inr (lastID, s1) \<Rightarrow>
             ((200, Registered msg_registered lastID
                     (if truthy (payload.nidNumber p) then nid_pending else nid_none)),
              (case update_inventory (update_fault env) (update_time env)
                      (bind (payload.bloodType p)) s1 of
                 Inl updateErr \<Rightarrow> s1
               | Inr s2 \<Rightarrow> s2))))"

section \<open>Listing\<close>

text \<open>
  Lines 139 to 143: the object sent for a row. It has the columns of the row, with
  \<^verbatim>\<open>nidData\<close> replaced by the parsed value or \<^verbatim>\<open>null\<close> and with
  \<^verbatim>\<open>registrationDate\<close> replaced by the localized date. \<^verbatim>\<open>JSON.parse\<close> and the
  formatting of the date are parameters; \<open>parse t = None\<close> stands for the exception that
  \<^verbatim>\<open>JSON.parse\<close> throws on \<open>t\<close>.
\<close>

record 'j donor_json =
  columns :: donor
  nidData_json :: "'j option"
  registrationDate_text :: jsstring

definition present ::
  "(jsstring \<Rightarrow> 'j option) \<Rightarrow> (nat \<Rightarrow> jsstring) \<Rightarrow> donor \<Rightarrow> 'j donor_json option" where
  "present parse fmt d =
     (case donor_values.nidData d of
        None \<Rightarrow> Some \<lparr>columns = d, nidData_json = None,
                         registrationDate_text = fmt (registrationDate d)\<rparr>
      | Some t \<Rightarrow>
          if truthy (Str t)
          then (case parse t of
                  None \<Rightarrow> None
                | Some j \<Rightarrow> Some \<lparr>columns = d, nidData_json = Some j,
                                  registrationDate_text = fmt (registrationDate d)\<rparr>)
          else Some \<lparr>columns = d, nidData_json = None,
                     registrationDate_text = fmt (registrationDate d)\<rparr>)"

datatype 'j listing = Load_Failure jsstring | Donor_List "'j donor_json list" nat

text \<open>
  Lines 132 to 147. The result \<open>None\<close> is the run in which the callback throws and no
  response is sent.
\<close>

definition list_donors ::
  "(jsstring \<Rightarrow> 'j option) \<Rightarrow> (nat \<Rightarrow> jsstring) \<Rightarrow> bool \<Rightarrow> db \<Rightarrow> (nat \<times> 'j listing) option" where
  "list_donors parse fmt fault s =
     (case select_donors fault s of
        Inl err \<Rightarrow> Some (500, Load_Failure msg_load_failed)
      | Inr rows \<Rightarrow>
          (case those (map (present parse fmt) rows) of
             None \<Rightarrow> None
           | Some donors' \<Rightarrow> Some (200, Donor_List donors' (length donors'))))"

section \<open>Runs of the server\<close>

text \<open>
  The operations that write the store, and the state after a sequence of them; listing
  writes nothing.
\<close>

datatype request = Startup nat "jsstring \<Rightarrow> nat" | Register reg_env payload

fun step :: "request \<Rightarrow> db \<Rightarrow> db" where
  "step (Startup t_admin t_inv) s = startup t_admin t_inv s"
| "step (Register env p) s = snd (register_donor env p s)"

definition exec :: "request list \<Rightarrow> db \<Rightarrow> db" where
  "exec rs s = fold step rs s"

section \<open>The accepted phone numbers as the specification words them\<close>

text \<open>
  The specification gives the shape of an accepted number, after the removal of white
  space, as \<^verbatim>\<open>+880\<close>, then \<^verbatim>\<open>1\<close>, a digit from 3 to 9, and eight more digits.
\<close>

definition spec_phone_shape :: "jsstring \<Rightarrow> bool" where
  "spec_phone_shape t \<longleftrightarrow>
     length t = 14 \<and> take 4 t = js ''+880'' \<and> t ! 4 = of_char CHR ''1'' \<and>
     digit_3_9 (t ! 5) \<and> list_all is_digit (drop 6 t)"

section \<open>Sample requests\<close>

text \<open>
  The example request of the specification, which gives the seven required fields only;
  the same request with a date of birth, an address and a zip code; two runs of the
  handler; the store after one startup, and the store after two registrations.
\<close>

definition example_payload :: payload where
  "example_payload =
     \<lparr>firstName = Str (js ''Karim''), lastName = Str (js ''Uddin''),
      email = Str (js ''k@example.com''), phone = Str (js ''+8801711112222''),
      dob = Undefined, bloodType = Str (js ''O+''), gender = Str (js ''Male''),
      address = Undefined, city = Str (js ''Dhaka''), zipCode = Undefined,
      nidNumber = Undefined, registeredBy = Undefined\<rparr>"

definition full_payload :: payload where
  "full_payload = example_payload\<lparr>dob := Str (js ''1990-01-01''),
     address := Str (js ''12 Lake Road''), zipCode := Str (js ''1207'')\<rparr>"

definition env0 :: reg_env where
  "env0 = \<lparr>insert_fault = False, insert_time = 5, update_fault = False, update_time = 6\<rparr>"

definition env1 :: reg_env where
  "env1 = \<lparr>insert_fault = False, insert_time = 9, update_fault = False, update_time = 9\<rparr>"

definition seeded_db :: db where
  "seeded_db = exec [Startup 1 (\<lambda>ty. 2)] empty_db"

definition two_donors :: db where
  "two_donors = exec [Startup 1 (\<lambda>ty. 2), Register env0 full_payload,
     Register env1 (full_payload\<lparr>payload.nidNumber := Str (js ''12345678901234567'')\<rparr>)] empty_db"

text \<open>
  A store with one donor row whose \<^verbatim>\<open>nidData\<close> is the text \<^verbatim>\<open>{bad\<close>, a parser that
  throws on that text, as \<^verbatim>\<open>JSON.parse\<close> does, and a formatter of dates.
\<close>

definition malformed_nid_db :: db where
  "malformed_nid_db = seeded_db\<lparr>donors :=
     [new_donor 1 5 ((donor_params full_payload)\<lparr>donor_values.nidData := Some (js ''{bad'')\<rparr>)],
     donors_seq := 1\<rparr>"

definition parse_sample :: "jsstring \<Rightarrow> unit option" where
  "parse_sample t = (if t = js ''{bad'' then None else Some ())"

definition format_sample :: "nat \<Rightarrow> jsstring" where
  "format_sample n = js ''date''"

section \<open>The matcher and the words of a pattern\<close>

declare run.simps(5) [simp del]

lemma run_Plus: "t \<in> set (run (Plus a) s) \<longleftrightarrow>
  (\<exists>m \<in> set (run a s). t = m \<or> (length m < length s \<and> t \<in> set (run (Plus a) m)))"
  by (subst run.simps(5)) (auto split: if_splits)

lemma lang_PlusI: "us \<noteq> [] \<Longrightarrow> set us \<subseteq> lang a \<Longrightarrow> concat us \<in> lang (Plus a)"
  by auto

lemma lang_PlusE:
  assumes "w \<in> lang (Plus a)"
  obtains us where "us \<noteq> []" "set us \<subseteq> lang a" "w = concat us"
  using assms by auto

declare lang.simps(5) [simp del]

lemma plus_lang_cases:
  assumes "us \<noteq> []" "set us \<subseteq> L"
  shows "(concat us = [] \<and> [] \<in> L) \<or>
         (\<exists>v vs. v \<noteq> [] \<and> v \<in> L \<and> set vs \<subseteq> L \<and> concat us = v @ concat vs)"
  using assms
proof (induction us)
  case Nil
  then show ?case by simp
next
  case (Cons w ws)
  show ?case
  proof (cases "w = []")
    case False
    with Cons.prems show ?thesis by auto
  next
    case True
    show ?thesis
    proof (cases "ws = []")
      case True
      with \<open>w = []\<close> Cons.prems show ?thesis by simp
    next
      case False
      with Cons.IH Cons.prems \<open>w = []\<close> show ?thesis by auto
    qed
  qed
qed

lemma run_lang: "set (run r s) = {t. \<exists>u \<in> lang r. s = u @ t}"
proof (induction r s rule: run.induct)
  case (1 s)
  show ?case by simp
next
  case (2 P s)
  show ?case by (cases s) auto
next
  case (3 a b s)
  show ?case 
  proof (intro set_eqI iffI)
    fix t assume "t \<in> set (run (Seq a b) s)"
    then obtain m where m: "m \<in> set (run a s)" "t \<in> set (run b m)" by auto
    from m(1) "3.IH"(1) obtain u where u: "u \<in> lang a" "s = u @ m" by auto
    from m "3.IH"(2) obtain v where v: "v \<in> lang b" "m = v @ t" by auto
    from u v have "u @ v \<in> lang (Seq a b)" "s = (u @ v) @ t" by auto
    then show "t \<in> {t. \<exists>u \<in> lang (Seq a b). s = u @ t}" by blast
  next
    fix t assume "t \<in> {t. \<exists>u \<in> lang (Seq a b). s = u @ t}"
    then obtain u v where uv: "u \<in> lang a" "v \<in> lang b" "s = (u @ v) @ t" by auto
    then have m: "v @ t \<in> set (run a s)" using "3.IH"(1) by auto
    with uv "3.IH"(2) have "t \<in> set (run b (v @ t))" by auto
    with m show "t \<in> set (run (Seq a b) s)" by auto
  qed
next
  case (4 a s)
  then show ?case by auto
next
  case (5 a s)
  show ?case
  proof (intro set_eqI iffI)
    fix t assume "t \<in> set (run (Plus a) s)"
    then obtain m where m: "m \<in> set (run a s)"
      and t: "t = m \<or> (length m < length s \<and> t \<in> set (run (Plus a) m))"
      unfolding run_Plus [of t a s] by blast
    from m "5.IH"(1) obtain u where u: "u \<in> lang a" "s = u @ m" by auto
    from t show "t \<in> {t. \<exists>u \<in> lang (Plus a). s = u @ t}"
    proof
      assume "t = m"
      from u(1) have "concat [u] \<in> lang (Plus a)" by (intro lang_PlusI) auto
      moreover from u(2) \<open>t = m\<close> have "s = concat [u] @ t" by simp
      ultimately show ?thesis by blast
    next
      assume h: "length m < length s \<and> t \<in> set (run (Plus a) m)"
      with m "5.IH"(2) obtain w where w: "w \<in> lang (Plus a)" "m = w @ t"
        by auto
      from w(1) obtain us where us: "us \<noteq> []" "set us \<subseteq> lang a" "w = concat us"
        by (rule lang_PlusE)
      from u(1) us(2) have "concat (u # us) \<in> lang (Plus a)" by (intro lang_PlusI) auto
      moreover from u(2) w(2) us(3) have "s = concat (u # us) @ t" by simp
      ultimately show ?thesis by blast
    qed
  next
    fix t assume "t \<in> {t. \<exists>u \<in> lang (Plus a). s = u @ t}"
    then obtain w where w: "w \<in> lang (Plus a)" "s = w @ t" by auto
    from w(1) obtain us0 where us0: "us0 \<noteq> []" "set us0 \<subseteq> lang a" "w = concat us0"
      by (rule lang_PlusE)
    with w(2) have us: "us0 \<noteq> []" "set us0 \<subseteq> lang a" "s = concat us0 @ t" by auto
    from plus_lang_cases [OF us(1,2)]
    show "t \<in> set (run (Plus a) s)"
    proof (elim disjE conjE exE)
      assume "concat us0 = []" "[] \<in> lang a"
      with us(3) "5.IH"(1) have "t \<in> set (run a s)" by auto
      then show ?thesis unfolding run_Plus [of t a s] by blast
    next
      fix v vs assume v: "v \<noteq> []" "v \<in> lang a" "set vs \<subseteq> lang a" "concat us0 = v @ concat vs"
      with us(3) have s: "s = v @ (concat vs @ t)" by simp
      with v "5.IH"(1) have m: "concat vs @ t \<in> set (run a s)" by auto
      from s v(1) have len: "length (concat vs @ t) < length s" by simp
      show ?thesis
      proof (cases "concat vs = []")
        case True
        with m show ?thesis unfolding run_Plus [of t a s] by auto
      next
        case False
        then have "vs \<noteq> []" by auto
        with v(3) have "concat vs \<in> lang (Plus a)" by (intro lang_PlusI)
        with "5.IH"(2) [OF m len] have "t \<in> set (run (Plus a) (concat vs @ t))" by blast
        with m len show ?thesis unfolding run_Plus [of t a s] by blast
      qed
    qed
  qed
qed

lemma test_lang: "test r s \<longleftrightarrow> s \<in> lang r"
  by (simp add: test_def run_lang)

lemma lang_Seq_iff: "s \<in> lang (Seq a b) \<longleftrightarrow> (\<exists>u v. s = u @ v \<and> u \<in> lang a \<and> v \<in> lang b)"
  by auto

lemma lang_Class_iff: "u \<in> lang (Class P) \<longleftrightarrow> (\<exists>c. u = [c] \<and> P c)"
  by auto

lemma lang_Plus_Class: "u \<in> lang (Plus (Class P)) \<longleftrightarrow> u \<noteq> [] \<and> list_all P u"
proof
  assume "u \<in> lang (Plus (Class P))"
  then obtain us where us: "us \<noteq> []" "set us \<subseteq> lang (Class P)" "u = concat us"
    by (rule lang_PlusE)
  from us(2) have "list_all P (concat us) \<and> (us \<noteq> [] \<longrightarrow> concat us \<noteq> [])"
    by (induction us) auto
  with us show "u \<noteq> [] \<and> list_all P u" by simp
next
  assume u: "u \<noteq> [] \<and> list_all P u"
  then have "set (map (\<lambda>c. [c]) u) \<subseteq> lang (Class P)" "map (\<lambda>c. [c]) u \<noteq> []"
    by (auto simp: list_all_iff)
  then have "concat (map (\<lambda>c. [c]) u) \<in> lang (Plus (Class P))" by (intro lang_PlusI)
  moreover have "concat (map (\<lambda>c. [c]) u) = u" by (induction u) auto
  ultimately show "u \<in> lang (Plus (Class P))" by simp
qed

lemma lang_chr: "u \<in> lang (chr c) \<longleftrightarrow> u = [of_char c]"
  by (auto simp: chr_def)

lemma lang_Opt_iff: "u \<in> lang (Opt a) \<longleftrightarrow> u = [] \<or> u \<in> lang a"
  by auto

lemma lang_seqs_Nil: "u \<in> lang (seqs []) \<longleftrightarrow> u = []"
  by (simp add: seqs_def)

lemma lang_seqs_Cons: "s \<in> lang (seqs (r # rs)) \<longleftrightarrow> (\<exists>u v. s = u @ v \<and> u \<in> lang r \<and> v \<in> lang (seqs rs))"
  by (auto simp: seqs_def)

lemma lang_Seq_Class:
  "s \<in> lang (Seq (Class P) r) \<longleftrightarrow> (\<exists>c t. s = c # t \<and> P c \<and> t \<in> lang r)"
proof
  assume "s \<in> lang (Seq (Class P) r)"
  then show "\<exists>c t. s = c # t \<and> P c \<and> t \<in> lang r" by auto
next
  assume "\<exists>c t. s = c # t \<and> P c \<and> t \<in> lang r"
  then obtain c t where "s = [c] @ t" "[c] \<in> lang (Class P)" "t \<in> lang r" by auto
  then show "s \<in> lang (Seq (Class P) r)" unfolding lang_Seq_iff by blast
qed

lemma rep_0: "rep 0 r = Eps"
  by (simp add: rep_def seqs_def)

lemma rep_Suc: "rep (Suc n) r = Seq r (rep n r)"
  by (simp add: rep_def seqs_def)

lemma lang_rep_Class: "u \<in> lang (rep n (Class P)) \<longleftrightarrow> length u = n \<and> list_all P u"
proof (induction n arbitrary: u)
  case 0
  show ?case by (auto simp: rep_0)
next
  case (Suc n)
  have "u \<in> lang (rep (Suc n) (Class P)) \<longleftrightarrow>
        (\<exists>c v. u = c # v \<and> P c \<and> v \<in> lang (rep n (Class P)))"
    unfolding rep_Suc lang_Seq_Class ..
  also have "\<dots> \<longleftrightarrow> length u = Suc n \<and> list_all P u"
    using Suc.IH by (cases u) auto
  finally show ?case .
qed

lemma nid_iff: "test nidRegex n \<longleftrightarrow> length n = 17 \<and> list_all is_digit n"
  by (simp add: test_lang nidRegex_def lang_rep_Class)

lemma lang_seqs_chr:
  "s \<in> lang (seqs (chr c # rs)) \<longleftrightarrow> (\<exists>v. s = of_char c # v \<and> v \<in> lang (seqs rs))"
  using lang_Seq_Class [of s "\<lambda>x. x = of_char c" "seqs rs"] by (simp add: seqs_def chr_def)

lemma lang_seqs_Class:
  "s \<in> lang (seqs (Class P # rs)) \<longleftrightarrow> (\<exists>c v. s = c # v \<and> P c \<and> v \<in> lang (seqs rs))"
  using lang_Seq_Class [of s P "seqs rs"] by (simp add: seqs_def)

lemma lang_seqs_Opt:
  "s \<in> lang (seqs (Opt a # rs)) \<longleftrightarrow> s \<in> lang (seqs rs) \<or> s \<in> lang (seqs (a # rs))"
proof -
  have "s \<in> lang (seqs (Opt a # rs)) \<longleftrightarrow>
        (\<exists>u v. s = u @ v \<and> (u = [] \<or> u \<in> lang a) \<and> v \<in> lang (seqs rs))"
    unfolding lang_seqs_Cons lang_Opt_iff ..
  also have "\<dots> \<longleftrightarrow> s \<in> lang (seqs rs) \<or> (\<exists>u v. s = u @ v \<and> u \<in> lang a \<and> v \<in> lang (seqs rs))"
    by (metis append_Nil)
  finally show ?thesis unfolding lang_seqs_Cons .
qed

lemma lang_seqs_Plus_Class:
  "s \<in> lang (seqs (Plus (Class P) # rs)) \<longleftrightarrow>
     (\<exists>u v. s = u @ v \<and> u \<noteq> [] \<and> list_all P u \<and> v \<in> lang (seqs rs))"
  unfolding lang_seqs_Cons lang_Plus_Class by simp

lemma seqs_PlusI:
  "u \<noteq> [] \<Longrightarrow> list_all P u \<Longrightarrow> v \<in> lang (seqs rs) \<Longrightarrow> u @ v \<in> lang (seqs (Plus (Class P) # rs))"
  unfolding lang_seqs_Plus_Class by blast

lemma seqs_chrI: "v \<in> lang (seqs rs) \<Longrightarrow> of_char c # v \<in> lang (seqs (chr c # rs))"
  unfolding lang_seqs_chr by blast

lemma email_iff:
  "test emailRegex e \<longleftrightarrow>
     (\<exists>l d t. e = l @ js ''@'' @ d @ js ''.'' @ t \<and> l \<noteq> [] \<and> d \<noteq> [] \<and> t \<noteq> [] \<and>
        list_all not_space_at (l @ d @ t))"
proof
  assume "test emailRegex e"
  then obtain l r1 d r2 t where "e = l @ r1" "l \<noteq> []" "list_all not_space_at l"
    "r1 = of_char CHR ''@'' # d @ r2" "d \<noteq> []" "list_all not_space_at d"
    "r2 = of_char CHR ''.'' # t @ []" "t \<noteq> []" "list_all not_space_at t"
    unfolding test_lang emailRegex_def lang_seqs_Plus_Class lang_seqs_chr lang_seqs_Nil
    by blast
  then have "e = l @ js ''@'' @ d @ js ''.'' @ t \<and> l \<noteq> [] \<and> d \<noteq> [] \<and> t \<noteq> [] \<and>
        list_all not_space_at (l @ d @ t)"
    by (simp add: js_def)
  then show "\<exists>l d t. e = l @ js ''@'' @ d @ js ''.'' @ t \<and> l \<noteq> [] \<and> d \<noteq> [] \<and> t \<noteq> [] \<and>
        list_all not_space_at (l @ d @ t)"
    by blast
next
  assume "\<exists>l d t. e = l @ js ''@'' @ d @ js ''.'' @ t \<and> l \<noteq> [] \<and> d \<noteq> [] \<and> t \<noteq> [] \<and>
        list_all not_space_at (l @ d @ t)"
  then obtain l d t where e: "e = l @ (of_char CHR ''@'' # (d @ (of_char CHR ''.'' # (t @ []))))"
    and ne: "l \<noteq> []" "d \<noteq> []" "t \<noteq> []"
    and cl: "list_all not_space_at l" "list_all not_space_at d" "list_all not_space_at t"
    by (auto simp: js_def)
  have "[] \<in> lang (seqs [])" by (simp add: lang_seqs_Nil)
  then show "test emailRegex e"
    unfolding test_lang emailRegex_def e
    by (intro seqs_PlusI seqs_chrI ne cl)
qed

lemma lang_seqs_last: "s \<in> lang (seqs [r]) \<longleftrightarrow> s \<in> lang r"
  by (simp add: seqs_def)

lemma phone_lang:
  "s \<in> lang phoneRegex \<longleftrightarrow>
     (\<exists>d ds. digit_3_9 d \<and> length ds = 8 \<and> list_all is_digit ds \<and>
        (s = js ''+8801'' @ d # ds \<or> s = js ''+881'' @ d # ds \<or>
         s = js ''8801'' @ d # ds \<or> s = js ''881'' @ d # ds \<or>
         (\<exists>c. is_space c \<and>
            (s = js ''+880'' @ c # js ''1'' @ d # ds \<or> s = js ''+88'' @ c # js ''1'' @ d # ds \<or>
             s = js ''880'' @ c # js ''1'' @ d # ds \<or> s = js ''88'' @ c # js ''1'' @ d # ds))))"
  unfolding phoneRegex_def lang_seqs_Opt lang_seqs_chr lang_seqs_Class lang_seqs_last
    lang_rep_Class
  by (auto simp: js_def)

section \<open>The phone pattern and the cases of the registration handler\<close>

lemma replace_ws_no_space: "c \<in> set (replace_ws s) \<Longrightarrow> \<not> is_space c"
  by (simp add: replace_ws_def)

lemma phone_check_iff:
  "phone_check (Str ph) \<longleftrightarrow>
     (\<exists>d ds. digit_3_9 d \<and> length ds = 8 \<and> list_all is_digit ds \<and>
        replace_ws ph \<in> {js ''+8801'' @ d # ds, js ''+881'' @ d # ds,
                         js ''8801'' @ d # ds, js ''881'' @ d # ds})"
  (is "?l \<longleftrightarrow> ?r")
proof
  assume ?r
  then show ?l
    unfolding phone_check_def to_string_def test_lang phone_lang by auto
next
  assume ?l
  then have "replace_ws ph \<in> lang phoneRegex"
    by (simp add: phone_check_def to_string_def test_lang)
  then obtain d ds where d: "digit_3_9 d" "length ds = 8" "list_all is_digit ds"
    and s: "replace_ws ph = js ''+8801'' @ d # ds \<or> replace_ws ph = js ''+881'' @ d # ds \<or>
         replace_ws ph = js ''8801'' @ d # ds \<or> replace_ws ph = js ''881'' @ d # ds \<or>
         (\<exists>c. is_space c \<and>
            (replace_ws ph = js ''+880'' @ c # js ''1'' @ d # ds \<or>
             replace_ws ph = js ''+88'' @ c # js ''1'' @ d # ds \<or>
             replace_ws ph = js ''880'' @ c # js ''1'' @ d # ds \<or>
             replace_ws ph = js ''88'' @ c # js ''1'' @ d # ds))"
    unfolding phone_lang by blast
  have "\<not> (\<exists>c. is_space c \<and>
            (replace_ws ph = js ''+880'' @ c # js ''1'' @ d # ds \<or>
             replace_ws ph = js ''+88'' @ c # js ''1'' @ d # ds \<or>
             replace_ws ph = js ''880'' @ c # js ''1'' @ d # ds \<or>
             replace_ws ph = js ''88'' @ c # js ''1'' @ d # ds))"
  proof
    assume "\<exists>c. is_space c \<and>
            (replace_ws ph = js ''+880'' @ c # js ''1'' @ d # ds \<or>
             replace_ws ph = js ''+88'' @ c # js ''1'' @ d # ds \<or>
             replace_ws ph = js ''880'' @ c # js ''1'' @ d # ds \<or>
             replace_ws ph = js ''88'' @ c # js ''1'' @ d # ds)"
    then obtain c where c: "is_space c" and "replace_ws ph = js ''+880'' @ c # js ''1'' @ d # ds \<or>
             replace_ws ph = js ''+88'' @ c # js ''1'' @ d # ds \<or>
             replace_ws ph = js ''880'' @ c # js ''1'' @ d # ds \<or>
             replace_ws ph = js ''88'' @ c # js ''1'' @ d # ds"
      by blast
    then have "c \<in> set (replace_ws ph)" by auto
    with c replace_ws_no_space show False by blast
  qed
  with d s show ?r by blast
qed

lemma msgs_distinct:
  "msg_required \<noteq> msg_email" "msg_required \<noteq> msg_phone" "msg_required \<noteq> msg_nid"
  "msg_required \<noteq> msg_store" "msg_email \<noteq> msg_phone" "msg_email \<noteq> msg_nid"
  "msg_email \<noteq> msg_store" "msg_phone \<noteq> msg_nid" "msg_phone \<noteq> msg_store"
  "msg_nid \<noteq> msg_store"
  by (simp_all add: msg_required_def msg_email_def msg_phone_def msg_nid_def msg_store_def)

lemma truthy_iff: "truthy v \<longleftrightarrow> (\<exists>s. v = Str s \<and> s \<noteq> [])"
  by (cases v) (auto simp: truthy_def)

lemma register_donor_cases:
  "register_donor env p s = ((400, Failure msg_required), s) \<and> required_missing p \<or>
   register_donor env p s = ((400, Failure msg_email), s) \<and> \<not> required_missing p \<and>
     \<not> email_check (payload.email p) \<or>
   register_donor env p s = ((400, Failure msg_phone), s) \<and> \<not> required_missing p \<and>
     email_check (payload.email p) \<and> \<not> phone_check (payload.phone p) \<or>
   register_donor env p s = ((400, Failure msg_nid), s) \<and> \<not> required_missing p \<and>
     email_check (payload.email p) \<and> phone_check (payload.phone p) \<and>
     nid_rejected (payload.nidNumber p) \<or>
   register_donor env p s = ((500, Failure msg_store), s) \<and> \<not> required_missing p \<and>
     email_check (payload.email p) \<and> phone_check (payload.phone p) \<and>
     \<not> nid_rejected (payload.nidNumber p) \<and>
     (\<exists>e. insert_donor (insert_fault env) (insert_time env) (donor_params p) s = Inl e) \<or>
   (\<exists>i s1. insert_donor (insert_fault env) (insert_time env) (donor_params p) s = Inr (i, s1) \<and>
     fst (fst (register_donor env p s)) = 200 \<and>
     donors (snd (register_donor env p s)) = donors s1 \<and>
     \<not> required_missing p \<and>
     email_check (payload.email p) \<and> phone_check (payload.phone p) \<and>
     \<not> nid_rejected (payload.nidNumber p))"
  by (auto simp: register_donor_def update_inventory_def split: sum.splits prod.splits)

text \<open>
  Claim C2. When one of the required fields \<^verbatim>\<open>firstName\<close>, \<^verbatim>\<open>lastName\<close>,
  \<^verbatim>\<open>email\<close>, \<^verbatim>\<open>phone\<close>, \<^verbatim>\<open>bloodType\<close>, \<^verbatim>\<open>gender\<close>, \<^verbatim>\<open>city\<close> is absent,
  \<^verbatim>\<open>null\<close> or the empty string, the response is 400 with the missing-fields message
  and the store is unchanged: no donor row is inserted and no inventory row is changed.
\<close>
theorem missing_required_field_rejected:
  assumes "\<exists>f \<in> {payload.firstName, payload.lastName, payload.email, payload.phone,
             payload.bloodType, payload.gender, payload.city}.
             f p = Undefined \<or> f p = Null \<or> f p = Str []"
  shows "register_donor env p s = ((400, Failure msg_required), s)"
proof -
  from assms have "required_missing p"
    unfolding required_missing_def by (auto simp: truthy_def)
  then show ?thesis by (simp add: register_donor_def)
qed

section \<open>The checks of the registration handler\<close>

lemma rep_numeral: "rep (numeral k) r = Seq r (rep (pred_numeral k) r)"
  by (simp add: numeral_eq_Suc rep_Suc)

lemmas eval_defs = test_def seqs_def chr_def js_def is_digit_def is_space_def digit_3_9_def
  not_space_at_def replace_ws_def to_string_def truthy_def run.simps(5) rep_numeral rep_Suc rep_0

lemma email_check_iff:
  "email_check (Str e) \<longleftrightarrow>
     (\<exists>l d t. e = l @ js ''@'' @ d @ js ''.'' @ t \<and> l \<noteq> [] \<and> d \<noteq> [] \<and> t \<noteq> [] \<and>
        list_all not_space_at (l @ d @ t))"
  by (simp add: email_check_def to_string_def email_iff)

lemma nid_rejected_iff:
  "nid_rejected (Str n) \<longleftrightarrow> n \<noteq> [] \<and> \<not> (length n = 17 \<and> list_all is_digit n)"
  by (simp add: nid_rejected_def truthy_def to_string_def nid_iff)

text \<open>
  Claim C3, as amended. The phone check, applied to the phone string after the removal of
  all white space, passes exactly the strings made of an optional \<^verbatim>\<open>+\<close>, then
  \<^verbatim>\<open>88\<close>, an optional \<^verbatim>\<open>0\<close>, then \<^verbatim>\<open>1\<close>, a digit from 3 to 9, and eight more
  digits. When the required-field check and the email check have passed, a phone that
  fails the check is rejected with 400 and the phone-format message, the store unchanged,
  and a phone that passes it is not.
\<close>
theorem phone_check_accepts:
  "(phone_check (Str ph) \<longleftrightarrow>
     (\<exists>d ds. digit_3_9 d \<and> length ds = 8 \<and> list_all is_digit ds \<and>
        replace_ws ph \<in> {js ''+8801'' @ d # ds, js ''+881'' @ d # ds,
                         js ''8801'' @ d # ds, js ''881'' @ d # ds})) \<and>
   (\<not> required_missing p \<and> email_check (payload.email p) \<and> payload.phone p = Str ph \<longrightarrow>
     (if phone_check (Str ph)
      then fst (register_donor env p s) \<noteq> (400, Failure msg_phone)
      else register_donor env p s = ((400, Failure msg_phone), s)))"
proof (intro conjI impI)
  show "phone_check (Str ph) \<longleftrightarrow>
     (\<exists>d ds. digit_3_9 d \<and> length ds = 8 \<and> list_all is_digit ds \<and>
        replace_ws ph \<in> {js ''+8801'' @ d # ds, js ''+881'' @ d # ds,
                         js ''8801'' @ d # ds, js ''881'' @ d # ds})"
    by (rule phone_check_iff)
next
  assume h: "\<not> required_missing p \<and> email_check (payload.email p) \<and> payload.phone p = Str ph"
  show "if phone_check (Str ph)
      then fst (register_donor env p s) \<noteq> (400, Failure msg_phone)
      else register_donor env p s = ((400, Failure msg_phone), s)"
    using h register_donor_cases [of env p s] msgs_distinct by auto
qed

text \<open>
  Claim C4, as amended. The NID pattern matches exactly the strings of 17 digits. A
  request that passes the required-field, email and phone checks and whose
  \<^verbatim>\<open>nidNumber\<close> is a non-empty string that is not 17 digits is rejected with 400 and the
  NID-format message, the store unchanged; a \<^verbatim>\<open>nidNumber\<close> of 17 digits passes the NID
  check and is never answered with that message.
\<close>

theorem nid_check:
  "(test nidRegex n \<longleftrightarrow> length n = 17 \<and> list_all is_digit n) \<and>
   (\<not> required_missing p \<and> email_check (payload.email p) \<and> phone_check (payload.phone p) \<and>
    payload.nidNumber p = Str n \<and> n \<noteq> [] \<and> \<not> (length n = 17 \<and> list_all is_digit n) \<longrightarrow>
      register_donor env p s = ((400, Failure msg_nid), s)) \<and>
   (payload.nidNumber p = Str n \<and> length n = 17 \<and> list_all is_digit n \<longrightarrow>
      \<not> nid_rejected (payload.nidNumber p) \<and>
      fst (register_donor env p s) \<noteq> (400, Failure msg_nid))"
proof (intro conjI impI)
  show "test nidRegex n \<longleftrightarrow> length n = 17 \<and> list_all is_digit n" by (rule nid_iff)
next
  assume h: "\<not> required_missing p \<and> email_check (payload.email p) \<and>
    phone_check (payload.phone p) \<and>
    payload.nidNumber p = Str n \<and> n \<noteq> [] \<and> \<not> (length n = 17 \<and> list_all is_digit n)"
  then have "nid_rejected (payload.nidNumber p)" by (simp add: nid_rejected_iff)
  with h show "register_donor env p s = ((400, Failure msg_nid), s)"
    by (simp add: register_donor_def)
next
  assume h: "payload.nidNumber p = Str n \<and> length n = 17 \<and> list_all is_digit n"
  then show r: "\<not> nid_rejected (payload.nidNumber p)" by (simp add: nid_rejected_iff)
  with register_donor_cases [of env p s] msgs_distinct
  show "fst (register_donor env p s) \<noteq> (400, Failure msg_nid)" by auto
qed

text \<open>
  Claim C6, as amended. The email check passes exactly the strings \<open>l@d.t\<close> whose three
  parts are non-empty and hold neither white space nor \<^verbatim>\<open>@\<close>. When the required-field
  check has passed, an email that fails the check is rejected with 400 and the email
  message, the store unchanged, and an email that passes it is not.
\<close>

theorem email_check_shape:
  "(email_check (Str e) \<longleftrightarrow>
     (\<exists>l d t. e = l @ js ''@'' @ d @ js ''.'' @ t \<and> l \<noteq> [] \<and> d \<noteq> [] \<and> t \<noteq> [] \<and>
        list_all not_space_at (l @ d @ t))) \<and>
   (\<not> required_missing p \<and> payload.email p = Str e \<longrightarrow>
     (if email_check (Str e)
      then fst (register_donor env p s) \<noteq> (400, Failure msg_email)
      else register_donor env p s = ((400, Failure msg_email), s)))"
proof (intro conjI impI)
  show "email_check (Str e) \<longleftrightarrow>
     (\<exists>l d t. e = l @ js ''@'' @ d @ js ''.'' @ t \<and> l \<noteq> [] \<and> d \<noteq> [] \<and> t \<noteq> [] \<and>
        list_all not_space_at (l @ d @ t))"
    by (rule email_check_iff)
next
  assume h: "\<not> required_missing p \<and> payload.email p = Str e"
  show "if email_check (Str e)
      then fst (register_donor env p s) \<noteq> (400, Failure msg_email)
      else register_donor env p s = ((400, Failure msg_email), s)"
    using h register_donor_cases [of env p s] msgs_distinct by auto
qed

lemma bind_None_iff: "bind v = None \<longleftrightarrow> v = Undefined \<or> v = Null"
  by (cases v) (simp_all add: bind_def)

lemma stored_text_well_formed: "well_formed_utf16 t \<Longrightarrow> stored_text t = t"
  by (induction t rule: well_formed_utf16.induct)
    (auto simp: replace_surrogate_def split: if_splits)

lemma stored_text_Nil_iff: "stored_text t = [] \<longleftrightarrow> t = []"
  by (cases t rule: stored_text.cases) auto

lemma bind_Str: "bind (Str t) = Some (stored_text t)"
  by (simp add: bind_def)

text \<open>
  Claim C10. A request that passes the four validation checks and leaves out \<^verbatim>\<open>dob\<close>,
  \<^verbatim>\<open>address\<close> or \<^verbatim>\<open>zipCode\<close> (or gives \<^verbatim>\<open>null\<close> for one of them) breaks a
  \<^verbatim>\<open>NOT NULL\<close> constraint of the insert: the response is 500 with the store-error
  message, and the store is unchanged.
\<close>
theorem missing_not_null_column_fails:
  assumes "\<not> required_missing p" "email_check (payload.email p)"
    "phone_check (payload.phone p)" "\<not> nid_rejected (payload.nidNumber p)"
    and "payload.dob p \<in> {Undefined, Null} \<or> payload.address p \<in> {Undefined, Null} \<or>
         payload.zipCode p \<in> {Undefined, Null}"
  shows "register_donor env p s = ((500, Failure msg_store), s) \<and>
         insert_donor False (insert_time env) (donor_params p) s = Inl Constraint_Failed"
proof -
  from assms(5) have "list_ex (\<lambda>c. c = None) (not_null_columns (donor_params p))"
    by (auto simp: not_null_columns_def donor_params_def bind_None_iff)
  then have "insert_donor f (insert_time env) (donor_params p) s =
      Inl (if f then Store_Fault else Constraint_Failed)" for f
    by (simp add: insert_donor_def)
  with assms(1-4) show ?thesis by (simp add: register_donor_def)
qed

section \<open>The writes of the registration handler\<close>

lemma insert_donor_Inr:
  assumes "insert_donor f now v s = Inr (i, s1)"
  shows "s1 = s\<lparr>donors := donors s @ [new_donor i now v], donors_seq := i\<rparr>"
  using assms by (auto simp: insert_donor_def split: if_splits)

lemma donor_params_nid:
  "nidVerified (donor_params p) = 0" "nidData (donor_params p) = None"
  "donor_values.nidNumber (donor_params p) = bind (payload.nidNumber p)"
  "donor_values.bloodType (donor_params p) = bind (payload.bloodType p)"
  by (simp_all add: donor_params_def bind_def)

lemma new_donor_sel:
  "nidVerified (new_donor i now v) = nidVerified v" "nidData (new_donor i now v) = nidData v"
  "donor_values.nidNumber (new_donor i now v) = donor_values.nidNumber v"
  "donor_values.bloodType (new_donor i now v) = donor_values.bloodType v"
  "registrationDate (new_donor i now v) = now" "id_col (new_donor i now v) = i"
  by (simp_all add: new_donor_def)

lemma register_donor_accepted:
  assumes "\<not> required_missing p" "email_check (payload.email p)"
    "phone_check (payload.phone p)" "\<not> nid_rejected (payload.nidNumber p)"
    and "insert_donor (insert_fault env) (insert_time env) (donor_params p) s = Inr (i, s1)"
  shows "register_donor env p s =
    ((200, Registered msg_registered i
             (if truthy (payload.nidNumber p) then nid_pending else nid_none)),
     s\<lparr>donors := donors s @ [new_donor i (insert_time env) (donor_params p)], donors_seq := i,
       blood_inventory := (if update_fault env then blood_inventory s
          else map (bump (update_time env) (bind (payload.bloodType p))) (blood_inventory s))\<rparr>)"
  using assms(1-4) insert_donor_Inr [OF assms(5)] assms(5)
  by (simp add: register_donor_def update_inventory_def)

lemma register_donor_state:
  "snd (register_donor env p s) = s \<and> fst (fst (register_donor env p s)) \<noteq> 200 \<or>
   (\<exists>i. fst (fst (register_donor env p s)) = 200 \<and>
     snd (register_donor env p s) =
       s\<lparr>donors := donors s @ [new_donor i (insert_time env) (donor_params p)], donors_seq := i,
         blood_inventory := (if update_fault env then blood_inventory s
          else map (bump (update_time env) (bind (payload.bloodType p))) (blood_inventory s))\<rparr>)"
proof -
  from register_donor_cases [of env p s] show ?thesis
  proof (elim disjE conjE exE)
    fix i s1
    assume "insert_donor (insert_fault env) (insert_time env) (donor_params p) s = Inr (i, s1)"
      "\<not> required_missing p" "email_check (payload.email p)" "phone_check (payload.phone p)"
      "\<not> nid_rejected (payload.nidNumber p)"
    from register_donor_accepted [OF this(2-5) this(1)] show ?thesis
      by (intro disjI2 exI [of _ i]) simp
  qed simp_all
qed

lemma bump_bloodType: "inventory_row.bloodType (bump now t r) = inventory_row.bloodType r"
  by (simp add: bump_def)

text \<open>
  Claim C1. When a request passes validation and the insert of the donor succeeds, the
  handler issues the update of the inventory on the store that the insert left. The
  donor row inserted has the blood type bound from the request; when the store executes
  the update, the inventory has the same rows in the same order, every row whose blood
  type equals that of the donor registered has its unit count increased by exactly 1 and
  its \<^verbatim>\<open>lastUpdated\<close> set to the time of the update, and every other row is unchanged.
  The unit counts are SQLite integers, before and after the update.
\<close>

theorem registration_increments_inventory:
  assumes "\<not> required_missing p" "email_check (payload.email p)"
    "phone_check (payload.phone p)" "\<not> nid_rejected (payload.nidNumber p)"
    and "insert_donor (insert_fault env) (insert_time env) (donor_params p) s = Inr (lastID, s1)"
    and "s' = snd (register_donor env p s)"
    and "\<forall>r \<in> set (blood_inventory s). int64 (units r) \<and>
           (Some (inventory_row.bloodType r) = bind (payload.bloodType p) \<longrightarrow>
              int64 (units r + 1))"
  shows "s' = (case update_inventory (update_fault env) (update_time env)
                      (bind (payload.bloodType p)) s1 of
                 Inl updateErr \<Rightarrow> s1 | Inr s2 \<Rightarrow> s2) \<and>
    (\<exists>d. donors s1 = donors s @ [d] \<and>
       donor_values.bloodType d = bind (payload.bloodType p) \<and>
       (\<not> update_fault env \<longrightarrow>
         length (blood_inventory s') = length (blood_inventory s) \<and>
         (\<forall>i < length (blood_inventory s).
            inventory_row.bloodType (blood_inventory s' ! i) =
              inventory_row.bloodType (blood_inventory s ! i) \<and>
            int64 (units (blood_inventory s' ! i)) \<and>
            (if Some (inventory_row.bloodType (blood_inventory s ! i)) = donor_values.bloodType d
             then units (blood_inventory s' ! i) = units (blood_inventory s ! i) + 1 \<and>
                  lastUpdated (blood_inventory s' ! i) = update_time env
             else blood_inventory s' ! i = blood_inventory s ! i))))"
proof (intro conjI)
  from assms(1-6) show "s' = (case update_inventory (update_fault env) (update_time env)
                      (bind (payload.bloodType p)) s1 of
                 Inl updateErr \<Rightarrow> s1 | Inr s2 \<Rightarrow> s2)"
    by (simp add: register_donor_def)
next
  let ?d = "new_donor lastID (insert_time env) (donor_params p)"
  let ?b = "bind (payload.bloodType p)"
  from insert_donor_Inr [OF assms(5)] have d1: "donors s1 = donors s @ [?d]" by simp
  have d2: "donor_values.bloodType ?d = ?b"
    by (simp add: new_donor_sel donor_params_nid)
  have d3: "\<not> update_fault env \<longrightarrow>
         length (blood_inventory s') = length (blood_inventory s) \<and>
         (\<forall>i < length (blood_inventory s).
            inventory_row.bloodType (blood_inventory s' ! i) =
              inventory_row.bloodType (blood_inventory s ! i) \<and>
            int64 (units (blood_inventory s' ! i)) \<and>
            (if Some (inventory_row.bloodType (blood_inventory s ! i)) = ?b
             then units (blood_inventory s' ! i) = units (blood_inventory s ! i) + 1 \<and>
                  lastUpdated (blood_inventory s' ! i) = update_time env
             else blood_inventory s' ! i = blood_inventory s ! i))"
  proof (intro impI conjI allI)
    assume upd: "\<not> update_fault env"
    from register_donor_accepted [OF assms(1-5)] upd assms(6)
    have inv: "blood_inventory s' = map (bump (update_time env) ?b) (blood_inventory s)"
      by simp
    show "length (blood_inventory s') = length (blood_inventory s)"
      unfolding inv by simp
    fix i assume i: "i < length (blood_inventory s)"
    then have "blood_inventory s ! i \<in> set (blood_inventory s)" by simp
    with assms(7) have r: "int64 (units (blood_inventory s ! i))"
      "Some (inventory_row.bloodType (blood_inventory s ! i)) = ?b \<longrightarrow>
         int64 (units (blood_inventory s ! i) + 1)"
      by blast+
    from i have n: "blood_inventory s' ! i = bump (update_time env) ?b (blood_inventory s ! i)"
      unfolding inv by simp
    show "inventory_row.bloodType (blood_inventory s' ! i) =
        inventory_row.bloodType (blood_inventory s ! i)"
      unfolding n by (simp add: bump_def)
    show "int64 (units (blood_inventory s' ! i))"
      unfolding n using r by (simp add: bump_def)
    show "if Some (inventory_row.bloodType (blood_inventory s ! i)) = ?b
        then units (blood_inventory s' ! i) = units (blood_inventory s ! i) + 1 \<and>
             lastUpdated (blood_inventory s' ! i) = update_time env
        else blood_inventory s' ! i = blood_inventory s ! i"
      unfolding n by (simp add: bump_def)
  qed
  from d1 d2 d3 show "\<exists>d. donors s1 = donors s @ [d] \<and>
       donor_values.bloodType d = bind (payload.bloodType p) \<and>
       (\<not> update_fault env \<longrightarrow>
         length (blood_inventory s') = length (blood_inventory s) \<and>
         (\<forall>i < length (blood_inventory s).
            inventory_row.bloodType (blood_inventory s' ! i) =
              inventory_row.bloodType (blood_inventory s ! i) \<and>
            int64 (units (blood_inventory s' ! i)) \<and>
            (if Some (inventory_row.bloodType (blood_inventory s ! i)) = donor_values.bloodType d
             then units (blood_inventory s' ! i) = units (blood_inventory s ! i) + 1 \<and>
                  lastUpdated (blood_inventory s' ! i) = update_time env
             else blood_inventory s' ! i = blood_inventory s ! i)))"
    by (intro exI [of _ ?d]) simp
qed

lemma step_donors:
  "donors (step r s) = donors s \<or>
   (\<exists>i t p. donors (step r s) = donors s @ [new_donor i t (donor_params p)])"
proof (cases r)
  case (Startup t c)
  have "donors (foldl (\<lambda>s' ty. insert_or_ignore_inventory (c ty) ty s') s0 tys) = donors s0"
    for s0 :: db and tys
    by (induction tys arbitrary: s0) (simp_all add: insert_or_ignore_inventory_def)
  moreover have "donors (seed_admin t s) = donors s"
    by (auto simp: seed_admin_def insert_admin_def split: option.splits sum.splits if_splits)
  ultimately show ?thesis using Startup by (simp add: startup_def)
next
  case (Register env p)
  from register_donor_state [of env p s] show ?thesis
  proof
    assume "snd (register_donor env p s) = s \<and> fst (fst (register_donor env p s)) \<noteq> 200"
    with Register show ?thesis by simp
  next
    assume "\<exists>i. fst (fst (register_donor env p s)) = 200 \<and>
     snd (register_donor env p s) =
       s\<lparr>donors := donors s @ [new_donor i (insert_time env) (donor_params p)], donors_seq := i,
         blood_inventory := (if update_fault env then blood_inventory s
          else map (bump (update_time env) (bind (payload.bloodType p))) (blood_inventory s))\<rparr>"
    then obtain i where
      "donors (step r s) = donors s @ [new_donor i (insert_time env) (donor_params p)]"
      using Register by auto
    then show ?thesis by blast
  qed
qed

lemma exec_induct:
  assumes "P s" and "\<And>r s. P s \<Longrightarrow> P (step r s)"
  shows "P (exec reqs s)"
  using assms(1) unfolding exec_def
  by (induction reqs arbitrary: s) (simp_all add: assms(2))

lemma reachable_nid_unverified:
  "\<forall>d \<in> set (donors (exec reqs empty_db)). nidVerified d = 0 \<and> nidData d = None"
proof (rule exec_induct)
  show "\<forall>d \<in> set (donors empty_db). nidVerified d = 0 \<and> nidData d = None"
    by (simp add: empty_db_def)
next
  fix r and s :: db assume "\<forall>d \<in> set (donors s). nidVerified d = 0 \<and> nidData d = None"
  with step_donors [of r s]
  show "\<forall>d \<in> set (donors (step r s)). nidVerified d = 0 \<and> nidData d = None"
    by (auto simp: new_donor_sel donor_params_nid)
qed

text \<open>
  Claim C5, as amended. A registration is answered 200 exactly when it passes validation
  and its insert succeeds; it then appends one donor row, whose \<^verbatim>\<open>nidVerified\<close> is 0
  and whose \<^verbatim>\<open>nidData\<close> is \<^verbatim>\<open>NULL\<close>, whether or not a national ID was given. A
  registration that is not answered 200 appends none; and after any sequence of startups
  and registrations on an empty store every donor row has these two values.
\<close>

theorem nid_fields_unverified:
  "(fst (fst (register_donor env p s)) = 200 \<longleftrightarrow>
      \<not> required_missing p \<and> email_check (payload.email p) \<and> phone_check (payload.phone p) \<and>
      \<not> nid_rejected (payload.nidNumber p) \<and>
      (\<exists>i s1. insert_donor (insert_fault env) (insert_time env) (donor_params p) s =
         Inr (i, s1))) \<and>
   (fst (fst (register_donor env p s)) = 200 \<longrightarrow>
      (\<exists>d. donors (snd (register_donor env p s)) = donors s @ [d] \<and>
           nidVerified d = 0 \<and> nidData d = None \<and>
           donor_values.nidNumber d = bind (payload.nidNumber p))) \<and>
   (fst (fst (register_donor env p s)) \<noteq> 200 \<longrightarrow>
      donors (snd (register_donor env p s)) = donors s) \<and>
   (\<forall>d \<in> set (donors (exec reqs empty_db)). nidVerified d = 0 \<and> nidData d = None)"
proof (intro conjI)
  show "fst (fst (register_donor env p s)) = 200 \<longleftrightarrow>
      \<not> required_missing p \<and> email_check (payload.email p) \<and> phone_check (payload.phone p) \<and>
      \<not> nid_rejected (payload.nidNumber p) \<and>
      (\<exists>i s1. insert_donor (insert_fault env) (insert_time env) (donor_params p) s =
         Inr (i, s1))"
    using register_donor_cases [of env p s] by auto
next
  show "fst (fst (register_donor env p s)) = 200 \<longrightarrow>
      (\<exists>d. donors (snd (register_donor env p s)) = donors s @ [d] \<and>
           nidVerified d = 0 \<and> nidData d = None \<and>
           donor_values.nidNumber d = bind (payload.nidNumber p))"
    using register_donor_state [of env p s]
    by (auto simp: new_donor_sel donor_params_nid)
next
  show "fst (fst (register_donor env p s)) \<noteq> 200 \<longrightarrow>
      donors (snd (register_donor env p s)) = donors s"
    using register_donor_state [of env p s] by auto
next
  show "\<forall>d \<in> set (donors (exec reqs empty_db)). nidVerified d = 0 \<and> nidData d = None"
    by (rule reachable_nid_unverified)
qed

section \<open>Startup, once and again\<close>

lemma seed_admin_empty:
  "admins s = [] \<Longrightarrow> seed_admin t s =
     s\<lparr>admins := [admin_row t (js ''admin'') (js ''admin123'')
          (js ''admin@roktokona.org'') defaultAdmin_name]\<rparr>"
  by (simp add: seed_admin_def select_admin_def insert_admin_def)

lemma seed_admin_present:
  "admins s = [admin_row t0 (js ''admin'') p e n] \<Longrightarrow> seed_admin t s = s"
  by (simp add: seed_admin_def select_admin_def admin_row_def)

lemma seed_inventory_frame:
  fixes s :: db
  shows "donors (foldl (\<lambda>s' ty. insert_or_ignore_inventory (c ty) ty s') s tys) = donors s \<and>
     donors_seq (foldl (\<lambda>s' ty. insert_or_ignore_inventory (c ty) ty s') s tys) = donors_seq s \<and>
     admins (foldl (\<lambda>s' ty. insert_or_ignore_inventory (c ty) ty s') s tys) = admins s"
  by (induction tys arbitrary: s) (simp_all add: insert_or_ignore_inventory_def)

lemma seed_inventory_noop:
  fixes s :: db
  assumes "set tys \<subseteq> inventory_row.bloodType ` set (blood_inventory s)"
  shows "foldl (\<lambda>s' ty. insert_or_ignore_inventory (c ty) ty s') s tys = s"
  using assms
  by (induction tys arbitrary: s) (auto simp: insert_or_ignore_inventory_def list_ex_iff)

lemma seed_inventory_fresh:
  fixes s :: db
  assumes "blood_inventory s = []"
  shows "blood_inventory (foldl (\<lambda>s' ty. insert_or_ignore_inventory (c ty) ty s') s bloodTypes) =
     map (\<lambda>ty. \<lparr>inventory_row.bloodType = ty, units = 0, lastUpdated = c ty\<rparr>) bloodTypes"
  using assms by (simp add: bloodTypes_def insert_or_ignore_inventory_def js_def)

lemma startup_seeded:
  assumes "admins s = [] \<or> (\<exists>t0. admins s = [admin_row t0 (js ''admin'') (js ''admin123'')
        (js ''admin@roktokona.org'') defaultAdmin_name])"
    and "blood_inventory s = [] \<or> map inventory_row.bloodType (blood_inventory s) = bloodTypes"
  shows "(\<exists>t0. admins (startup t c s) = [admin_row t0 (js ''admin'') (js ''admin123'')
        (js ''admin@roktokona.org'') defaultAdmin_name]) \<and>
         map inventory_row.bloodType (blood_inventory (startup t c s)) = bloodTypes \<and>
         donors (startup t c s) = donors s"
proof -
  let ?s1 = "seed_admin t s"
  from assms(1) have a: "\<exists>t0. admins ?s1 = [admin_row t0 (js ''admin'') (js ''admin123'')
        (js ''admin@roktokona.org'') defaultAdmin_name]"
    by (auto simp: seed_admin_empty seed_admin_present)
  from assms(1) have i: "blood_inventory ?s1 = blood_inventory s" "donors ?s1 = donors s"
    by (auto simp: seed_admin_empty seed_admin_present)
  from assms(2) have "map inventory_row.bloodType (blood_inventory (startup t c s)) = bloodTypes"
  proof
    assume "blood_inventory s = []"
    with i have "blood_inventory ?s1 = []" by simp
    from seed_inventory_fresh [OF this, of c] show ?thesis
      by (simp add: startup_def comp_def)
  next
    assume m: "map inventory_row.bloodType (blood_inventory s) = bloodTypes"
    with i have "set bloodTypes \<subseteq> inventory_row.bloodType ` set (blood_inventory ?s1)"
      by (metis list.set_map order_refl)
    from seed_inventory_noop [OF this, of c] m i show ?thesis by (simp add: startup_def)
  qed
  with a i seed_inventory_frame [of c ?s1 bloodTypes] show ?thesis
    by (simp add: startup_def)
qed

lemma startup_again:
  assumes "\<exists>t0. admins s = [admin_row t0 (js ''admin'') (js ''admin123'')
        (js ''admin@roktokona.org'') defaultAdmin_name]"
    and "map inventory_row.bloodType (blood_inventory s) = bloodTypes"
  shows "startup t c s = s"
proof -
  from assms(1) have s1: "seed_admin t s = s" by (auto simp: seed_admin_present)
  from assms(2) have "set bloodTypes \<subseteq> inventory_row.bloodType ` set (blood_inventory s)"
    by (metis list.set_map order_refl)
  from seed_inventory_noop [OF this, of c] s1 show ?thesis by (simp add: startup_def)
qed

lemma register_frame:
  "admins (snd (register_donor env p s)) = admins s \<and>
   map inventory_row.bloodType (blood_inventory (snd (register_donor env p s))) =
     map inventory_row.bloodType (blood_inventory s)"
  using register_donor_state [of env p s]
  by (auto simp: bump_bloodType comp_def)

lemma reachable_seeds:
  "(admins (exec reqs empty_db) = [] \<or>
      (\<exists>t0. admins (exec reqs empty_db) = [admin_row t0 (js ''admin'') (js ''admin123'')
        (js ''admin@roktokona.org'') defaultAdmin_name])) \<and>
   (blood_inventory (exec reqs empty_db) = [] \<or>
      map inventory_row.bloodType (blood_inventory (exec reqs empty_db)) = bloodTypes)"
proof (rule exec_induct)
  show "(admins empty_db = [] \<or> (\<exists>t0. admins empty_db = [admin_row t0 (js ''admin'') (js ''admin123'')
        (js ''admin@roktokona.org'') defaultAdmin_name])) \<and>
    (blood_inventory empty_db = [] \<or>
      map inventory_row.bloodType (blood_inventory empty_db) = bloodTypes)"
    by (simp add: empty_db_def)
next
  fix r and s :: db
  assume h: "(admins s = [] \<or> (\<exists>t0. admins s = [admin_row t0 (js ''admin'') (js ''admin123'')
        (js ''admin@roktokona.org'') defaultAdmin_name])) \<and>
    (blood_inventory s = [] \<or> map inventory_row.bloodType (blood_inventory s) = bloodTypes)"
  show "(admins (step r s) = [] \<or> (\<exists>t0. admins (step r s) = [admin_row t0 (js ''admin'') (js ''admin123'')
        (js ''admin@roktokona.org'') defaultAdmin_name])) \<and>
    (blood_inventory (step r s) = [] \<or>
      map inventory_row.bloodType (blood_inventory (step r s)) = bloodTypes)"
  proof (cases r)
    case (Startup t c)
    with h startup_seeded [of s t c] show ?thesis by simp
  next
    case (Register env p)
    from register_frame [of env p s] h Register show ?thesis
      by (metis map_is_Nil_conv step.simps(2))
  qed
qed

text \<open>
  Claim C8. On every store reached from the empty one by startups and registrations, a
  startup followed by a second startup leaves what the first left: exactly one admin row,
  the default admin, and exactly 8 inventory rows, one for each of the 8 blood types.
\<close>
theorem startup_idempotent:
  "startup t2 c2 (startup t1 c1 (exec reqs empty_db)) = startup t1 c1 (exec reqs empty_db) \<and>
   (\<exists>t0. admins (startup t1 c1 (exec reqs empty_db)) = [admin_row t0 (js ''admin'') (js ''admin123'')
        (js ''admin@roktokona.org'') defaultAdmin_name]) \<and>
   length (admins (startup t2 c2 (startup t1 c1 (exec reqs empty_db)))) = 1 \<and>
   map inventory_row.bloodType
     (blood_inventory (startup t2 c2 (startup t1 c1 (exec reqs empty_db)))) = bloodTypes \<and>
   length (blood_inventory (startup t2 c2 (startup t1 c1 (exec reqs empty_db)))) = 8 \<and>
   distinct bloodTypes"
proof -
  let ?s1 = "startup t1 c1 (exec reqs empty_db)"
  from reachable_seeds [of reqs] startup_seeded [of "exec reqs empty_db" t1 c1]
  have s1: "\<exists>t0. admins ?s1 = [admin_row t0 (js ''admin'') (js ''admin123'')
        (js ''admin@roktokona.org'') defaultAdmin_name]"
    "map inventory_row.bloodType (blood_inventory ?s1) = bloodTypes"
    by blast+
  from startup_again [OF s1] have again: "startup t2 c2 ?s1 = ?s1" .
  have "length (map inventory_row.bloodType (blood_inventory ?s1)) = 8"
    unfolding s1(2) by (simp add: bloodTypes_def)
  then have len: "length (blood_inventory ?s1) = 8" by simp
  have d: "distinct bloodTypes" by (simp add: bloodTypes_def js_def)
  from s1 again len d show ?thesis by auto
qed

section \<open>Blood types outside the inventory, and the listing\<close>

lemma reachable_inventory_canonical:
  "inventory_row.bloodType ` set (blood_inventory (exec reqs empty_db)) \<subseteq> set bloodTypes"
proof -
  from reachable_seeds [of reqs]
  have "blood_inventory (exec reqs empty_db) = [] \<or>
      map inventory_row.bloodType (blood_inventory (exec reqs empty_db)) = bloodTypes"
    by blast
  then show ?thesis
  proof
    assume "blood_inventory (exec reqs empty_db) = []"
    then show ?thesis by simp
  next
    assume "map inventory_row.bloodType (blood_inventory (exec reqs empty_db)) = bloodTypes"
    then show ?thesis by (metis list.set_map order_refl)
  qed
qed

text \<open>
  Claim C9, as amended. When the blood type of a request is a non-empty, well-formed
  string (no surrogate code unit outside a pair) that is not one of the 8 blood types,
  the request passes the four validation checks and gives \<^verbatim>\<open>dob\<close>, \<^verbatim>\<open>address\<close> and
  \<^verbatim>\<open>zipCode\<close> as strings, and the store does not fail the insert, then on every store
  reached from the empty one by startups and registrations the response is the success
  response, one donor row with that blood type is appended, the update matches no
  inventory row, and the inventory is unchanged.
\<close>

theorem unknown_blood_type_accepted:
  assumes bt: "payload.bloodType p = Str t" and ne: "t \<noteq> []"
    and other: "t \<notin> set bloodTypes" and wf: "well_formed_utf16 t"
    and valid: "\<not> required_missing p" "email_check (payload.email p)"
      "phone_check (payload.phone p)" "\<not> nid_rejected (payload.nidNumber p)"
    and cols: "payload.dob p = Str a" "payload.address p = Str b" "payload.zipCode p = Str c"
    and nofault: "\<not> insert_fault env"
    and reach: "s = exec reqs empty_db"
  shows "fst (register_donor env p s) =
      (200, Registered msg_registered (next_id s)
              (if truthy (payload.nidNumber p) then nid_pending else nid_none)) \<and>
    (\<exists>d. donors (snd (register_donor env p s)) = donors s @ [d] \<and>
         donor_values.bloodType d = Some t) \<and>
    (\<forall>r \<in> set (blood_inventory s).
       Some (inventory_row.bloodType r) \<noteq> bind (payload.bloodType p)) \<and>
    blood_inventory (snd (register_donor env p s)) = blood_inventory s"
proof -
  from bt wf have b: "bind (payload.bloodType p) = Some t"
    by (simp add: bind_Str stored_text_well_formed)
  from valid(1) have "\<not> list_ex (\<lambda>c. c = None) (not_null_columns (donor_params p))"
    using cols
    by (auto simp: not_null_columns_def donor_params_def required_missing_def truthy_iff bind_Str)
  with nofault have ins: "insert_donor (insert_fault env) (insert_time env) (donor_params p) s =
     Inr (next_id s, s\<lparr>donors := donors s @ [new_donor (next_id s) (insert_time env) (donor_params p)],
        donors_seq := next_id s\<rparr>)"
    by (simp add: insert_donor_def)
  note reg = register_donor_accepted [OF valid ins]
  from reachable_inventory_canonical [of reqs] other reach
  have nomatch: "\<forall>r \<in> set (blood_inventory s). inventory_row.bloodType r \<noteq> t" by auto
  then have same: "map (bump u (Some t)) (blood_inventory s) = blood_inventory s" for u
    by (intro map_idI) (simp add: bump_def)
  from reg have "fst (register_donor env p s) =
      (200, Registered msg_registered (next_id s)
              (if truthy (payload.nidNumber p) then nid_pending else nid_none))" by simp
  moreover from reg have "donors (snd (register_donor env p s)) =
      donors s @ [new_donor (next_id s) (insert_time env) (donor_params p)]" by simp
  moreover have "donor_values.bloodType (new_donor (next_id s) (insert_time env) (donor_params p)) = Some t"
    using b by (simp add: new_donor_sel donor_params_nid)
  moreover from nomatch b
  have "\<forall>r \<in> set (blood_inventory s). Some (inventory_row.bloodType r) \<noteq> bind (payload.bloodType p)"
    by simp
  moreover from reg same b
  have "blood_inventory (snd (register_donor env p s)) = blood_inventory s"
    by simp
  ultimately show ?thesis by blast
qed

lemma select_donors_sorted:
  "sorted_wrt (\<lambda>a b. registrationDate b \<le> registrationDate a)
     (sort_key (\<lambda>d. - int (registrationDate d)) xs)"
proof -
  have "sorted (map (\<lambda>d. - int (registrationDate d)) (sort_key (\<lambda>d. - int (registrationDate d)) xs))"
    by (rule sorted_sort_key)
  then show ?thesis by (simp add: sorted_map)
qed

lemma those_present:
  assumes "\<forall>d \<in> set rows. \<forall>t. nidData d = Some t \<and> t \<noteq> [] \<longrightarrow> parse t \<noteq> None"
  shows "those (map (present parse fmt) rows) =
    Some (map (\<lambda>d. \<lparr>columns = d,
       nidData_json = (case nidData d of None \<Rightarrow> None | Some t \<Rightarrow> if t = [] then None else parse t),
       registrationDate_text = fmt (registrationDate d)\<rparr>) rows)"
  using assms
proof (induction rows)
  case Nil
  show ?case by simp
next
  case (Cons d rows)
  then have "present parse fmt d = Some \<lparr>columns = d,
       nidData_json = (case nidData d of None \<Rightarrow> None | Some t \<Rightarrow> if t = [] then None else parse t),
       registrationDate_text = fmt (registrationDate d)\<rparr>"
    by (auto simp: present_def truthy_def split: option.splits)
  with Cons show ?case by simp
qed

text \<open>
  Claim C7, as amended. For every state of the donors table the query of the list
  handler yields all donor rows, each once, ordered by registration time with the most
  recent first. When the store does not fail the query and every non-empty \<^verbatim>\<open>nidData\<close>
  parses, the response is 200 with these rows in this order and their count; on every
  store reached from the empty one by startups and registrations every \<^verbatim>\<open>nidData\<close> is
  \<^verbatim>\<open>NULL\<close>, so that this is the response. When the store fails the query, the response
  is 500.
\<close>

theorem list_donors_newest_first:
  "(\<exists>rows. select_donors False s = Inr rows \<and> mset rows = mset (donors s) \<and>
      sorted_wrt (\<lambda>a b. registrationDate b \<le> registrationDate a) rows \<and>
      ((\<forall>d \<in> set (donors s). \<forall>t. nidData d = Some t \<and> t \<noteq> [] \<longrightarrow> parse t \<noteq> None) \<longrightarrow>
         list_donors parse fmt False s =
           Some (200, Donor_List
             (map (\<lambda>d. \<lparr>columns = d,
                nidData_json = (case nidData d of None \<Rightarrow> None
                                | Some t \<Rightarrow> if t = [] then None else parse t),
                registrationDate_text = fmt (registrationDate d)\<rparr>) rows)
             (length (donors s))))) \<and>
   (\<forall>d \<in> set (donors (exec reqs empty_db)). nidData d = None) \<and>
   list_donors parse fmt True s = Some (500, Load_Failure msg_load_failed)"
proof (intro conjI)
  let ?rows = "sort_key (\<lambda>d. - int (registrationDate d)) (donors s)"
  have "select_donors False s = Inr ?rows" by (simp add: select_donors_def)
  moreover have "mset ?rows = mset (donors s)" by simp
  moreover have "sorted_wrt (\<lambda>a b. registrationDate b \<le> registrationDate a) ?rows"
    by (rule select_donors_sorted)
  moreover have "(\<forall>d \<in> set (donors s). \<forall>t. nidData d = Some t \<and> t \<noteq> [] \<longrightarrow> parse t \<noteq> None) \<longrightarrow>
         list_donors parse fmt False s =
           Some (200, Donor_List
             (map (\<lambda>d. \<lparr>columns = d,
                nidData_json = (case nidData d of None \<Rightarrow> None
                                | Some t \<Rightarrow> if t = [] then None else parse t),
                registrationDate_text = fmt (registrationDate d)\<rparr>) ?rows)
             (length (donors s)))"
  proof
    assume "\<forall>d \<in> set (donors s). \<forall>t. nidData d = Some t \<and> t \<noteq> [] \<longrightarrow> parse t \<noteq> None"
    then have "\<forall>d \<in> set ?rows. \<forall>t. nidData d = Some t \<and> t \<noteq> [] \<longrightarrow> parse t \<noteq> None"
      by simp
    from those_present [OF this, of fmt] show "list_donors parse fmt False s =
           Some (200, Donor_List
             (map (\<lambda>d. \<lparr>columns = d,
                nidData_json = (case nidData d of None \<Rightarrow> None
                                | Some t \<Rightarrow> if t = [] then None else parse t),
                registrationDate_text = fmt (registrationDate d)\<rparr>) ?rows)
             (length (donors s)))"
      by (simp add: list_donors_def select_donors_def)
  qed
  ultimately show "\<exists>rows. select_donors False s = Inr rows \<and> mset rows = mset (donors s) \<and>
      sorted_wrt (\<lambda>a b. registrationDate b \<le> registrationDate a) rows \<and>
      ((\<forall>d \<in> set (donors s). \<forall>t. nidData d = Some t \<and> t \<noteq> [] \<longrightarrow> parse t \<noteq> None) \<longrightarrow>
         list_donors parse fmt False s =
           Some (200, Donor_List
             (map (\<lambda>d. \<lparr>columns = d,
                nidData_json = (case nidData d of None \<Rightarrow> None
                                | Some t \<Rightarrow> if t = [] then None else parse t),
                registrationDate_text = fmt (registrationDate d)\<rparr>) rows)
             (length (donors s))))"
    by blast
next
  show "\<forall>d \<in> set (donors (exec reqs empty_db)). nidData d = None"
    using reachable_nid_unverified [of reqs] by blast
next
  show "list_donors parse fmt True s = Some (500, Load_Failure msg_load_failed)"
    by (simp add: list_donors_def select_donors_def)
qed

section \<open>The sample requests, evaluated\<close>

lemmas store_defs = exec_def startup_def seed_admin_def select_admin_def insert_admin_def
  admin_row_def bloodTypes_def insert_or_ignore_inventory_def empty_db_def insert_donor_def
  not_null_columns_def next_id_def new_donor_def update_inventory_def bump_def bind_def
  donor_params_def js_or_def js_def is_high_surrogate_def is_low_surrogate_def
  replace_surrogate_def

lemmas check_defs = required_missing_def email_check_def phone_check_def nid_rejected_def
  emailRegex_def phoneRegex_def nidRegex_def eval_defs

lemma full_payload_valid:
  "\<not> required_missing full_payload" "email_check (payload.email full_payload)"
  "phone_check (payload.phone full_payload)" "\<not> nid_rejected (payload.nidNumber full_payload)"
  by (simp_all add: full_payload_def example_payload_def check_defs)

lemma seeded_db_eq:
  "seeded_db = \<lparr>donors = [], donors_seq = 0,
     admins = [admin_row 1 (js ''admin'') (js ''admin123'') (js ''admin@roktokona.org'')
                 defaultAdmin_name],
     blood_inventory = map (\<lambda>ty. \<lparr>inventory_row.bloodType = ty, units = 0, lastUpdated = 2\<rparr>)
        bloodTypes\<rparr>"
  by (simp add: seeded_db_def store_defs)

theorem registration_increments_inventory_witness:
  "units (blood_inventory (snd (register_donor env0 full_payload seeded_db)) ! 0) =
     units (blood_inventory seeded_db ! 0) + 1 \<and>
   lastUpdated (blood_inventory (snd (register_donor env0 full_payload seeded_db)) ! 0) = 6 \<and>
   blood_inventory (snd (register_donor env0 full_payload seeded_db)) ! 1 =
     blood_inventory seeded_db ! 1"
proof -
  let ?inv = "blood_inventory seeded_db"
  let ?inv' = "blood_inventory (snd (register_donor env0 full_payload seeded_db))"
  have ins: "insert_donor (insert_fault env0) (insert_time env0) (donor_params full_payload)
      seeded_db =
    Inr (1, seeded_db\<lparr>donors := donors seeded_db @ [new_donor 1 5 (donor_params full_payload)],
              donors_seq := 1\<rparr>)"
    by (simp add: seeded_db_eq env0_def full_payload_def example_payload_def store_defs)
  have upd: "\<not> update_fault env0" by (simp add: env0_def)
  have bt: "bind (payload.bloodType full_payload) = Some (js ''O+'')"
    by (simp add: full_payload_def example_payload_def store_defs)
  have range: "\<forall>r \<in> set ?inv. int64 (units r) \<and>
      (Some (inventory_row.bloodType r) = bind (payload.bloodType full_payload) \<longrightarrow>
         int64 (units r + 1))"
    by (simp add: seeded_db_eq bloodTypes_def int64_def)
  have len: "length ?inv = 8"
    by (simp add: seeded_db_eq bloodTypes_def)
  have b0: "Some (inventory_row.bloodType (?inv ! 0)) = Some (js ''O+'')"
    and b1: "Some (inventory_row.bloodType (?inv ! 1)) \<noteq> Some (js ''O+'')"
    by (simp_all add: seeded_db_eq bloodTypes_def js_def)
  from registration_increments_inventory [OF full_payload_valid ins refl range] upd bt
  have "\<forall>i < length ?inv.
       if Some (inventory_row.bloodType (?inv ! i)) = Some (js ''O+'')
       then units (?inv' ! i) = units (?inv ! i) + 1 \<and> lastUpdated (?inv' ! i) = update_time env0
       else ?inv' ! i = ?inv ! i"
    by auto
  with len have "\<forall>i < 8.
       if Some (inventory_row.bloodType (?inv ! i)) = Some (js ''O+'')
       then units (?inv' ! i) = units (?inv ! i) + 1 \<and> lastUpdated (?inv' ! i) = update_time env0
       else ?inv' ! i = ?inv ! i"
    by simp
  then have
    "(if Some (inventory_row.bloodType (?inv ! 0)) = Some (js ''O+'')
       then units (?inv' ! 0) = units (?inv ! 0) + 1 \<and> lastUpdated (?inv' ! 0) = update_time env0
       else ?inv' ! 0 = ?inv ! 0) \<and>
     (if Some (inventory_row.bloodType (?inv ! 1)) = Some (js ''O+'')
       then units (?inv' ! 1) = units (?inv ! 1) + 1 \<and> lastUpdated (?inv' ! 1) = update_time env0
       else ?inv' ! 1 = ?inv ! 1)"
    by simp
  with b0 b1 show ?thesis by (simp add: env0_def)
qed

theorem missing_required_field_rejected_witness:
  "register_donor env0 (full_payload\<lparr>payload.email := Str []\<rparr>) seeded_db =
     ((400, Failure msg_required), seeded_db) \<and>
   register_donor env0 (full_payload\<lparr>payload.city := Undefined\<rparr>) seeded_db =
     ((400, Failure msg_required), seeded_db)"
  using missing_required_field_rejected [of "full_payload\<lparr>payload.email := Str []\<rparr>" env0 seeded_db]
    missing_required_field_rejected [of "full_payload\<lparr>payload.city := Undefined\<rparr>" env0 seeded_db]
  by simp

theorem phone_without_plus_accepted:
  "phone_check (Str (js ''8801712345678'')) \<and>
   \<not> spec_phone_shape (replace_ws (js ''8801712345678'')) \<and>
   fst (fst (register_donor env0 (full_payload\<lparr>payload.phone := Str (js ''8801712345678'')\<rparr>)
     seeded_db)) = 200"
  by (simp add: spec_phone_shape_def register_donor_def seeded_db_eq env0_def full_payload_def
      example_payload_def check_defs store_defs)

theorem phone_check_accepts_witness:
  "phone_check (Str (js ''+8801711112222'')) \<and>
   fst (register_donor env0 full_payload seeded_db) \<noteq> (400, Failure msg_phone) \<and>
   \<not> phone_check (Str (js ''12345'')) \<and>
   register_donor env0 (full_payload\<lparr>payload.phone := Str (js ''12345'')\<rparr>) seeded_db =
     ((400, Failure msg_phone), seeded_db)"
proof -
  have ok: "phone_check (Str (js ''+8801711112222''))"
    and bad: "\<not> phone_check (Str (js ''12345''))"
    by (simp_all add: check_defs)
  have p: "\<not> required_missing full_payload \<and> email_check (payload.email full_payload) \<and>
      payload.phone full_payload = Str (js ''+8801711112222'')"
    using full_payload_valid by (simp add: full_payload_def example_payload_def)
  have q: "\<not> required_missing (full_payload\<lparr>payload.phone := Str (js ''12345'')\<rparr>) \<and>
      email_check (payload.email (full_payload\<lparr>payload.phone := Str (js ''12345'')\<rparr>)) \<and>
      payload.phone (full_payload\<lparr>payload.phone := Str (js ''12345'')\<rparr>) = Str (js ''12345'')"
    using full_payload_valid
    by (simp add: full_payload_def example_payload_def required_missing_def truthy_def js_def)
  from phone_check_accepts [of "js ''+8801711112222''" full_payload env0 seeded_db] p ok
  have "fst (register_donor env0 full_payload seeded_db) \<noteq> (400, Failure msg_phone)"
    by simp
  moreover
  from phone_check_accepts [of "js ''12345''"
      "full_payload\<lparr>payload.phone := Str (js ''12345'')\<rparr>" env0 seeded_db] q bad
  have "register_donor env0 (full_payload\<lparr>payload.phone := Str (js ''12345'')\<rparr>) seeded_db =
     ((400, Failure msg_phone), seeded_db)"
    by simp
  ultimately show ?thesis using ok bad by blast
qed

section \<open>Further sample requests\<close>

theorem nid_check_witness:
  "register_donor env0 (full_payload\<lparr>payload.nidNumber := Str (js ''12345'')\<rparr>) seeded_db =
     ((400, Failure msg_nid), seeded_db) \<and>
   \<not> nid_rejected (Str (js ''12345678901234567'')) \<and>
   fst (register_donor env0
          (full_payload\<lparr>payload.nidNumber := Str (js ''12345678901234567'')\<rparr>) seeded_db) \<noteq>
     (400, Failure msg_nid)"
proof -
  have v: "\<not> required_missing (full_payload\<lparr>payload.nidNumber := Str (js ''12345'')\<rparr>) \<and>
      email_check (payload.email (full_payload\<lparr>payload.nidNumber := Str (js ''12345'')\<rparr>)) \<and>
      phone_check (payload.phone (full_payload\<lparr>payload.nidNumber := Str (js ''12345'')\<rparr>))"
    using full_payload_valid by (simp add: required_missing_def)
  have bad: "payload.nidNumber (full_payload\<lparr>payload.nidNumber := Str (js ''12345'')\<rparr>) =
      Str (js ''12345'') \<and> js ''12345'' \<noteq> [] \<and>
      \<not> (length (js ''12345'') = 17 \<and> list_all is_digit (js ''12345''))"
    by (simp add: js_def)
  have good: "payload.nidNumber (full_payload\<lparr>payload.nidNumber := Str (js ''12345678901234567'')\<rparr>)
      = Str (js ''12345678901234567'') \<and> length (js ''12345678901234567'') = 17 \<and>
      list_all is_digit (js ''12345678901234567'')"
    by (simp add: js_def is_digit_def)
  from nid_check [of "js ''12345''" "full_payload\<lparr>payload.nidNumber := Str (js ''12345'')\<rparr>"
      env0 seeded_db] v bad
  have "register_donor env0 (full_payload\<lparr>payload.nidNumber := Str (js ''12345'')\<rparr>) seeded_db =
     ((400, Failure msg_nid), seeded_db)"
    by blast
  moreover
  from nid_check [of "js ''12345678901234567''"
      "full_payload\<lparr>payload.nidNumber := Str (js ''12345678901234567'')\<rparr>" env0 seeded_db] good
  have "\<not> nid_rejected (Str (js ''12345678901234567'')) \<and>
    fst (register_donor env0
          (full_payload\<lparr>payload.nidNumber := Str (js ''12345678901234567'')\<rparr>) seeded_db) \<noteq>
     (400, Failure msg_nid)"
    by simp
  ultimately show ?thesis by blast
qed

lemma registered_200:
  "fst (fst (register_donor env0
     (full_payload\<lparr>payload.nidNumber := Str (js ''12345678901234567'')\<rparr>) seeded_db)) = 200"
  by (simp add: register_donor_def seeded_db_eq env0_def full_payload_def example_payload_def
      check_defs store_defs)

theorem nid_fields_unverified_witness:
  "\<exists>d. donors (snd (register_donor env0
           (full_payload\<lparr>payload.nidNumber := Str (js ''12345678901234567'')\<rparr>) seeded_db)) =
         donors seeded_db @ [d] \<and>
       nidVerified d = 0 \<and> nidData d = None \<and>
       donor_values.nidNumber d = Some (js ''12345678901234567'')"
  using nid_fields_unverified [of env0
      "full_payload\<lparr>payload.nidNumber := Str (js ''12345678901234567'')\<rparr>" seeded_db "[]"]
    registered_200
  by (simp add: store_defs)

theorem email_check_shape_witness:
  "email_check (Str (js ''k@example.com'')) \<and>
   (\<exists>l d t. js ''k@example.com'' = l @ js ''@'' @ d @ js ''.'' @ t \<and> l \<noteq> [] \<and> d \<noteq> [] \<and>
      t \<noteq> [] \<and> list_all not_space_at (l @ d @ t)) \<and>
   register_donor env0 (full_payload\<lparr>payload.email := Str (js ''karim.example.com'')\<rparr>) seeded_db =
     ((400, Failure msg_email), seeded_db)"
proof -
  have ok: "email_check (Str (js ''k@example.com''))"
    and bad: "\<not> email_check (Str (js ''karim.example.com''))"
    by (simp_all add: check_defs)
  have q: "\<not> required_missing (full_payload\<lparr>payload.email := Str (js ''karim.example.com'')\<rparr>) \<and>
      payload.email (full_payload\<lparr>payload.email := Str (js ''karim.example.com'')\<rparr>) =
        Str (js ''karim.example.com'')"
    by (simp add: full_payload_def example_payload_def required_missing_def truthy_def js_def)
  from email_check_shape [of "js ''k@example.com''" full_payload env0 seeded_db] ok
  have "\<exists>l d t. js ''k@example.com'' = l @ js ''@'' @ d @ js ''.'' @ t \<and> l \<noteq> [] \<and> d \<noteq> [] \<and>
      t \<noteq> [] \<and> list_all not_space_at (l @ d @ t)"
    by blast
  moreover
  from email_check_shape [of "js ''karim.example.com''"
      "full_payload\<lparr>payload.email := Str (js ''karim.example.com'')\<rparr>" env0 seeded_db] q bad
  have "register_donor env0 (full_payload\<lparr>payload.email := Str (js ''karim.example.com'')\<rparr>)
      seeded_db = ((400, Failure msg_email), seeded_db)"
    by simp
  ultimately show ?thesis using ok by blast
qed

theorem startup_idempotent_witness:
  "startup 7 (\<lambda>ty. 8) seeded_db = seeded_db \<and> length (admins seeded_db) = 1 \<and>
   length (blood_inventory seeded_db) = 8"
proof -
  have s: "seeded_db = startup 1 (\<lambda>ty. 2) (exec [] empty_db)"
    by (simp add: seeded_db_def exec_def)
  from startup_idempotent [of 7 "\<lambda>ty. 8" 1 "\<lambda>ty. 2" "[]"]
  show ?thesis unfolding s by metis
qed

theorem missing_not_null_column_fails_witness:
  "register_donor env0 example_payload seeded_db = ((500, Failure msg_store), seeded_db)"
proof -
  have "\<not> required_missing example_payload" "email_check (payload.email example_payload)"
    "phone_check (payload.phone example_payload)"
    "\<not> nid_rejected (payload.nidNumber example_payload)"
    using full_payload_valid by (simp_all add: full_payload_def required_missing_def)
  moreover have "payload.dob example_payload \<in> {Undefined, Null} \<or>
      payload.address example_payload \<in> {Undefined, Null} \<or>
      payload.zipCode example_payload \<in> {Undefined, Null}"
    by (simp add: example_payload_def)
  ultimately show ?thesis
    using missing_not_null_column_fails [of example_payload env0 seeded_db] by blast
qed

theorem unknown_blood_type_not_inserted:
  "payload.bloodType (example_payload\<lparr>payload.bloodType := Str (js ''X'')\<rparr>) = Str (js ''X'') \<and>
   js ''X'' \<noteq> [] \<and> js ''X'' \<notin> set bloodTypes \<and>
   register_donor env0 (example_payload\<lparr>payload.bloodType := Str (js ''X'')\<rparr>) seeded_db =
     ((500, Failure msg_store), seeded_db)"
  by (simp add: register_donor_def seeded_db_eq env0_def example_payload_def
      check_defs store_defs)

theorem unknown_blood_type_accepted_witness:
  "fst (fst (register_donor env0 (full_payload\<lparr>payload.bloodType := Str (js ''X'')\<rparr>)
      seeded_db)) = 200 \<and>
   blood_inventory (snd (register_donor env0 (full_payload\<lparr>payload.bloodType := Str (js ''X'')\<rparr>)
      seeded_db)) = blood_inventory seeded_db"
proof -
  let ?p = "full_payload\<lparr>payload.bloodType := Str (js ''X'')\<rparr>"
  have 1: "payload.bloodType ?p = Str (js ''X'')" "js ''X'' \<noteq> []" "js ''X'' \<notin> set bloodTypes"
    "well_formed_utf16 (js ''X'')"
    by (simp_all add: bloodTypes_def js_def is_high_surrogate_def is_low_surrogate_def)
  have 2: "\<not> required_missing ?p" "email_check (payload.email ?p)"
    "phone_check (payload.phone ?p)" "\<not> nid_rejected (payload.nidNumber ?p)"
    using full_payload_valid by (simp_all add: required_missing_def truthy_def js_def)
  have 3: "payload.dob ?p = Str (js ''1990-01-01'')" "payload.address ?p = Str (js ''12 Lake Road'')"
    "payload.zipCode ?p = Str (js ''1207'')"
    by (simp_all add: full_payload_def)
  have 4: "\<not> insert_fault env0" by (simp add: env0_def)
  from unknown_blood_type_accepted [OF 1 2 3 4 seeded_db_def]
  have "fst (register_donor env0 ?p seeded_db) =
      (200, Registered msg_registered (next_id seeded_db)
              (if truthy (payload.nidNumber ?p) then nid_pending else nid_none))"
    and "blood_inventory (snd (register_donor env0 ?p seeded_db)) = blood_inventory seeded_db"
    by blast+
  then show ?thesis by simp
qed

theorem list_donors_newest_first_witness:
  "\<exists>sent. list_donors (\<lambda>t. None :: unit option) (\<lambda>n. []) False two_donors =
       Some (200, Donor_List sent 2) \<and>
     map (\<lambda>j. registrationDate (columns j)) sent = [9, 5] \<and>
     map registrationDate (donors two_donors) = [5, 9]"
proof -
  have d: "map registrationDate (donors two_donors) = [5, 9]"
    "\<forall>d \<in> set (donors two_donors). nidData d = None"
    by (simp_all add: two_donors_def register_donor_def env0_def env1_def full_payload_def
        example_payload_def check_defs store_defs)
  from list_donors_newest_first [of two_donors "\<lambda>t. None :: unit option" "\<lambda>n. []" "[]"]
  obtain rows where rows: "select_donors False two_donors = Inr rows"
    "mset rows = mset (donors two_donors)"
    "sorted_wrt (\<lambda>a b. registrationDate b \<le> registrationDate a) rows"
    and resp: "(\<forall>d \<in> set (donors two_donors). \<forall>t. nidData d = Some t \<and> t \<noteq> [] \<longrightarrow>
                  (\<lambda>t. None :: unit option) t \<noteq> None) \<longrightarrow>
      list_donors (\<lambda>t. None :: unit option) (\<lambda>n. []) False two_donors =
        Some (200, Donor_List
          (map (\<lambda>d. \<lparr>columns = d,
             nidData_json = (case nidData d of None \<Rightarrow> None
                             | Some t \<Rightarrow> if t = [] then None else None),
             registrationDate_text = []\<rparr>) rows)
          (length (donors two_donors)))"
    by blast
  from d(2) resp have r: "list_donors (\<lambda>t. None :: unit option) (\<lambda>n. []) False two_donors =
        Some (200, Donor_List
          (map (\<lambda>d. \<lparr>columns = d,
             nidData_json = (case nidData d of None \<Rightarrow> None
                             | Some t \<Rightarrow> if t = [] then None else None),
             registrationDate_text = []\<rparr>) rows)
          (length (donors two_donors)))"
    by simp
  from d(1) have len: "length (donors two_donors) = 2"
    by (metis length_map length_Cons list.size(3) numeral_2_eq_2)
  from rows(1) d(1) have "map registrationDate rows = [9, 5]"
    by (auto simp: select_donors_def map_eq_Cons_conv)
  with r len d(1) show ?thesis by (simp add: comp_def)
qed

section \<open>Counterexamples to the first wording of C4, C5, C6 and C7\<close>

text \<open>
  C4 as first worded gives the NID-format message to every request with a malformed
  national ID. This request has one, and its email fails the earlier check: the message
  is the email message.
\<close>

theorem bad_nid_answered_email_message:
  "payload.nidNumber (full_payload\<lparr>payload.email := Str (js ''karim.example.com''),
      payload.nidNumber := Str (js ''1'')\<rparr>) = Str (js ''1'') \<and>
   js ''1'' \<noteq> [] \<and> \<not> (length (js ''1'') = 17 \<and> list_all is_digit (js ''1'')) \<and>
   register_donor env0 (full_payload\<lparr>payload.email := Str (js ''karim.example.com''),
      payload.nidNumber := Str (js ''1'')\<rparr>) seeded_db =
     ((400, Failure msg_email), seeded_db) \<and>
   msg_email \<noteq> msg_nid"
proof -
  have "register_donor env0 (full_payload\<lparr>payload.email := Str (js ''karim.example.com''),
      payload.nidNumber := Str (js ''1'')\<rparr>) seeded_db =
     ((400, Failure msg_email), seeded_db)"
    by (simp add: register_donor_def full_payload_def example_payload_def check_defs)
  with msgs_distinct show ?thesis by (simp add: js_def)
qed

text \<open>
  C5 as first worded has a donor row inserted for every request that passes validation.
  The example request passes the four checks and gives no date of birth: the insert
  fails, the answer is 500 and no row is inserted.
\<close>

theorem valid_request_without_row:
  "\<not> required_missing example_payload \<and> email_check (payload.email example_payload) \<and>
   phone_check (payload.phone example_payload) \<and>
   \<not> nid_rejected (payload.nidNumber example_payload) \<and>
   fst (fst (register_donor env0 example_payload seeded_db)) = 500 \<and>
   donors (snd (register_donor env0 example_payload seeded_db)) = donors seeded_db"
proof -
  have v: "\<not> required_missing example_payload" "email_check (payload.email example_payload)"
    "phone_check (payload.phone example_payload)"
    "\<not> nid_rejected (payload.nidNumber example_payload)"
    using full_payload_valid by (simp_all add: full_payload_def required_missing_def)
  have "insert_donor (insert_fault env0) (insert_time env0) (donor_params example_payload)
      seeded_db = Inl Constraint_Failed"
    by (simp add: env0_def example_payload_def store_defs)
  with v have "register_donor env0 example_payload seeded_db =
      ((500, Failure msg_store), seeded_db)"
    by (simp add: register_donor_def)
  with v show ?thesis by simp
qed

text \<open>
  C6 as first worded lets every string \<open>l@d.t\<close> with non-empty parts pass. This one
  has a space in its first part and is rejected.
\<close>

theorem email_with_space_rejected:
  "js ''a b@c.d'' = js ''a b'' @ js ''@'' @ js ''c'' @ js ''.'' @ js ''d'' \<and>
   js ''a b'' \<noteq> [] \<and> js ''c'' \<noteq> [] \<and> js ''d'' \<noteq> [] \<and>
   \<not> email_check (Str (js ''a b@c.d'')) \<and>
   register_donor env0 (full_payload\<lparr>payload.email := Str (js ''a b@c.d'')\<rparr>) seeded_db =
     ((400, Failure msg_email), seeded_db)"
proof -
  have bad: "\<not> email_check (Str (js ''a b@c.d''))"
    by (simp add: check_defs)
  have "\<not> required_missing (full_payload\<lparr>payload.email := Str (js ''a b@c.d'')\<rparr>)"
    by (simp add: full_payload_def example_payload_def required_missing_def truthy_def js_def)
  with bad have "register_donor env0 (full_payload\<lparr>payload.email := Str (js ''a b@c.d'')\<rparr>)
      seeded_db = ((400, Failure msg_email), seeded_db)"
    by (simp add: register_donor_def)
  with bad show ?thesis by (simp add: js_def)
qed

text \<open>
  C7 as first worded speaks of every state of the donors table. On a table with a row
  whose \<^verbatim>\<open>nidData\<close> does not parse, the callback of the list handler throws and no
  response is sent.
\<close>

theorem malformed_nid_data_no_response:
  "length (donors malformed_nid_db) = 1 \<and>
   list_donors parse_sample format_sample False malformed_nid_db = None"
  by (simp add: malformed_nid_db_def list_donors_def select_donors_def present_def
      parse_sample_def new_donor_def truthy_def js_def)

end
